theory Spec2Isabelle
  imports Main "HOL-Library.Char_ord" "HOL-Library.List_Lexorder" "HOL-Library.Multiset"
begin

section \<open>The m3u8 downloader (main.py)\<close>

text \<open>
  The program fetches a playlist, downloads the listed segments on a thread pool, writes
  a concat manifest of the downloaded \<open>.ts\<close> files and runs ffmpeg on it.

  Python \<open>str\<close> and \<open>bytes\<close> values are modelled as \<open>string\<close> (a list of 8-bit
  characters, read as the code points below 256). Everything the program does beyond
  computing a value is explicit: the file system, the terminal and the progress bar are
  fields of a \<open>world\<close> record that is passed through; the network, the external
  process and the thread scheduler are fields of an \<open>env\<close> record; a raised exception
  is a value of type \<open>exn\<close>.
\<close>

subsection \<open>Exceptions, terminal output, the world\<close>

datatype exn =
    ValueError string
  | RequestException string
  | OSError string
  | CalledProcessError int "string list" "string option"
    \<comment> \<open>return code, command, captured stderr (\<open>None\<close> when it was not captured)\<close>

text \<open>
  Each \<open>print(f"...")\<close> of the source is one constructor, carrying the values that
  the format string interpolates.
\<close>

datatype message =
    Failed_to_download string exn
    \<comment> \<open>\<open>Failed to download {ts_url}: {e}\<close>\<close>
  | Downloaded_all string
    \<comment> \<open>\<open>Downloaded all segments to the '{output_folder}' folder successfully.\<close>\<close>
  | Created_list string nat
    \<comment> \<open>\<open>Created {list_file_name} with {len(ts_files)} files listed.\<close>\<close>
  | Successfully_created string
    \<comment> \<open>\<open>Successfully created {output_file}\<close>\<close>
  | Error_executing exn
    \<comment> \<open>\<open>Error executing ffmpeg command: {e}\<close>\<close>
  | Ffmpeg_stderr "string option"
    \<comment> \<open>\<open>ffmpeg stderr output: {e.stderr}\<close>\<close>
  | Video_compressed
    \<comment> \<open>\<open>Video compressed using libx264 and aac audio.\<close>\<close>

text \<open>
  A directory is the list of its entries in the order \<open>os.listdir\<close> reports them
  (an order the program does not control). Directories are found by their path, after
  removing trailing slashes; other aliases of a path are not modelled. \<open>denied\<close> and
  \<open>write_fails\<close> stand for the refusals of the operating system (permissions, a name
  that is taken by something else, a full disk).
\<close>

datatype entry = RegularFile string | Subdirectory

record world =
  dirs :: "string \<Rightarrow> (string \<times> entry) list option"
  denied :: "string \<Rightarrow> bool"
  write_fails :: "string \<Rightarrow> bool"
  stdout :: "message list"
  progress :: nat

definition print :: "message \<Rightarrow> world \<Rightarrow> world" where
  "print m w = w\<lparr>stdout := stdout w @ [m]\<rparr>"

subsection \<open>Python string operations\<close>

definition startswith :: "string \<Rightarrow> string \<Rightarrow> bool" where
  "startswith s p = (take (length p) s = p)"

definition endswith :: "string \<Rightarrow> string \<Rightarrow> bool" where
  "endswith s p = (length p \<le> length s \<and> drop (length s - length p) s = p)"

text \<open>\<open>s.find(c, start)\<close> and \<open>s.rfind(c)\<close>: an index, or -1.\<close>

definition str_find :: "string \<Rightarrow> char \<Rightarrow> nat \<Rightarrow> int" where
  "str_find s c start =
     (let r = drop start s
      in if c \<in> set r then int (start + length (takeWhile (\<lambda>x. x \<noteq> c) r)) else -1)"

definition str_rfind :: "string \<Rightarrow> char \<Rightarrow> int" where
  "str_rfind s c =
     (if c \<in> set s
      then int (length s) - 1 - int (length (takeWhile (\<lambda>x. x \<noteq> c) (rev s)))
      else -1)"

text \<open>\<open>s.split(c)\<close>: never empty, \<open>''.split('/') = ['']\<close>.\<close>

fun str_split :: "char \<Rightarrow> string \<Rightarrow> string list" where
  "str_split c [] = [[]]"
| "str_split c (x # xs) =
     (if x = c then [] # str_split c xs
      else (case str_split c xs of
              [] \<Rightarrow> [[x]]
            | y # ys \<Rightarrow> (x # y) # ys))"

text \<open>\<open>sep.join(parts)\<close>.\<close>

fun str_join :: "string \<Rightarrow> string list \<Rightarrow> string" where
  "str_join sep [] = []"
| "str_join sep [x] = x"
| "str_join sep (x # y # zs) = x @ sep @ str_join sep (y # zs)"

text \<open>\<open>s.split(c, 1)\<close> when \<open>c\<close> occurs in \<open>s\<close>: the text before and after its first occurrence.\<close>

definition split_once :: "char \<Rightarrow> string \<Rightarrow> string \<times> string" where
  "split_once c s = (takeWhile (\<lambda>x. x \<noteq> c) s, drop 1 (dropWhile (\<lambda>x. x \<noteq> c) s))"

definition ascii_lowercase :: string where
  "ascii_lowercase = ''abcdefghijklmnopqrstuvwxyz''"

definition ascii_uppercase :: string where
  "ascii_uppercase = ''ABCDEFGHIJKLMNOPQRSTUVWXYZ''"

definition isascii :: "char \<Rightarrow> bool" where
  "isascii c = ((of_char c :: nat) < 128)"

text \<open>\<open>c.isascii() and c.isalpha()\<close>.\<close>

definition ascii_isalpha :: "char \<Rightarrow> bool" where
  "ascii_isalpha c = (c \<in> set ascii_lowercase \<or> c \<in> set ascii_uppercase)"

text \<open>\<open>s.lower()\<close>, on the ASCII letters (the only ones it is applied to).\<close>

definition lower :: "string \<Rightarrow> string" where
  "lower s = map (\<lambda>c. case map_of (zip ascii_uppercase ascii_lowercase) c of
                         Some l \<Rightarrow> l | None \<Rightarrow> c) s"

text \<open>
  \<open>str.splitlines()\<close>: a line ends at \<open>\n\<close>, \<open>\r\<close>, \<open>\r\n\<close>, \<open>\v\<close>, \<open>\f\<close>,
  \<open>\x1c\<close>, \<open>\x1d\<close>, \<open>\x1e\<close> or \<open>\x85\<close> (the line boundaries below 256); the
  boundary is not part of the line, and no empty line follows a final boundary.
  The first argument is the line read so far.
\<close>

definition line_boundary :: "char \<Rightarrow> bool" where
  "line_boundary c = ((of_char c :: nat) \<in> {10, 11, 12, 13, 28, 29, 30, 133})"

fun splitlines_from :: "string \<Rightarrow> string \<Rightarrow> string list" where
  "splitlines_from cur [] = (if cur = [] then [] else [cur])"
| "splitlines_from cur (c # cs) =
     (if line_boundary c
      then cur # splitlines_from []
             (if (of_char c :: nat) = 13 \<and> take 1 cs = [char_of (10 :: nat)]
              then drop 1 cs else cs)
      else splitlines_from (cur @ [c]) cs)"

definition splitlines :: "string \<Rightarrow> string list" where
  "splitlines s = splitlines_from [] s"

subsection \<open>\<open>os.path\<close> on POSIX\<close>

definition os_path_basename :: "string \<Rightarrow> string" where
  "os_path_basename p = drop (nat (str_rfind p CHR ''/'' + 1)) p"

definition os_path_join :: "string \<Rightarrow> string \<Rightarrow> string" where
  "os_path_join a b =
     (if startswith b ''/'' then b
      else if a = [] \<or> endswith a ''/'' then a @ b
      else a @ ''/'' @ b)"

text \<open>
  \<open>os.path.split\<close>: the directory and the name of a path. The directory loses its
  trailing slashes unless it consists of slashes only.
\<close>

definition rstrip_slashes :: "string \<Rightarrow> string" where
  "rstrip_slashes p =
     (if set p \<subseteq> {CHR ''/''} then p
      else rev (dropWhile (\<lambda>c. c = CHR ''/'') (rev p)))"

definition os_path_split :: "string \<Rightarrow> string \<times> string" where
  "os_path_split p =
     (let i = nat (str_rfind p CHR ''/'' + 1)
      in (rstrip_slashes (take i p), drop i p))"

subsection \<open>The environment\<close>

text \<open>
  What the program reads from outside, as functions of the request:
  \<^item> \<open>session_get url\<close>: the body of the response to \<open>session.get(url)\<close> (its \<open>.text\<close>
    or \<open>.content\<close>), or the exception the request raises;
  \<^item> \<open>subprocess_run command\<close>: the return code of the process and what it wrote to its
    standard error, or the exception of a process that could not be started;
  \<^item> \<open>next_done pending\<close>: which of the pending download units the thread pool completes
    next (taken modulo their number);
  \<^item> \<open>normalize_NFKC\<close> and \<open>ip_address\<close>: \<open>unicodedata.normalize('NFKC', _)\<close> and
    \<open>ipaddress.ip_address\<close> of the standard library, which \<open>urlsplit\<close> consults for a
    non-ASCII host and for a host in brackets; \<open>ip_address\<close> gives the kind of
    address, or the message of its \<open>ValueError\<close>.
\<close>

datatype ip_version = IPv4Address | IPv6Address

record env =
  session_get :: "string \<Rightarrow> exn + string"
  subprocess_run :: "string list \<Rightarrow> exn + int \<times> string"
  next_done :: "string list \<Rightarrow> nat"
  normalize_NFKC :: "string \<Rightarrow> string"
  ip_address :: "string \<Rightarrow> string + ip_version"

subsection \<open>\<open>urllib.parse\<close>\<close>

text \<open>
  \<open>urljoin\<close> and \<open>urlparse\<close> are functions of the Python standard library. They are
  transcribed here from \<open>Lib/urllib/parse.py\<close> (CPython 3.11), for \<open>str\<close> arguments
  and \<open>allow_fragments=True\<close>, statement by statement; \<open>Inl\<close> is a raised exception.
\<close>

definition uses_relative :: "string list" where
  "uses_relative = ['''', ''ftp'', ''http'', ''gopher'', ''nntp'', ''imap'',
                    ''wais'', ''file'', ''https'', ''shttp'', ''mms'',
                    ''prospero'', ''rtsp'', ''rtsps'', ''rtspu'', ''sftp'',
                    ''svn'', ''svn+ssh'', ''ws'', ''wss'']"

definition uses_netloc :: "string list" where
  "uses_netloc = ['''', ''ftp'', ''http'', ''gopher'', ''nntp'', ''telnet'',
                  ''imap'', ''wais'', ''file'', ''mms'', ''https'', ''shttp'',
                  ''snews'', ''prospero'', ''rtsp'', ''rtsps'', ''rtspu'', ''rsync'',
                  ''svn'', ''svn+ssh'', ''sftp'', ''nfs'', ''git'', ''git+ssh'',
                  ''ws'', ''wss'']"

definition uses_params :: "string list" where
  "uses_params = ['''', ''ftp'', ''hdl'', ''prospero'', ''http'', ''imap'',
                  ''https'', ''shttp'', ''rtsp'', ''rtsps'', ''rtspu'', ''sip'',
                  ''sips'', ''mms'', ''sftp'', ''tel'']"

definition scheme_chars :: string where
  "scheme_chars = ascii_lowercase @ ascii_uppercase @ ''0123456789'' @ ''+-.''"

definition hex_digits :: string where
  "hex_digits = ''abcdefABCDEF0123456789''"

text \<open>\<open>_WHATWG_C0_CONTROL_OR_SPACE\<close>: the characters up to the space.\<close>

definition c0_control_or_space :: "char \<Rightarrow> bool" where
  "c0_control_or_space c = ((of_char c :: nat) \<le> 32)"

text \<open>\<open>_UNSAFE_URL_BYTES_TO_REMOVE\<close>: tab, carriage return and newline.\<close>

definition unsafe_url_byte :: "char \<Rightarrow> bool" where
  "unsafe_url_byte c = ((of_char c :: nat) \<in> {9, 13, 10})"

definition splitparams :: "string \<Rightarrow> string \<times> string" where
  "splitparams url =
     (if CHR ''/'' \<in> set url
      then (let i = str_find url CHR '';'' (nat (str_rfind url CHR ''/''))
            in if i < 0 then (url, [])
               else (take (nat i) url, drop (nat i + 1) url))
      else (let i = str_find url CHR '';'' 0
            in (take (nat i) url, drop (nat i + 1) url)))"

text \<open>\<open>_splitnetloc(url, 2)\<close>: the text from index 2 up to the first of \<open>/?#\<close>, and the rest.\<close>

definition splitnetloc :: "string \<Rightarrow> string \<times> string" where
  "splitnetloc url =
     (let delim = (\<lambda>c. c \<in> set ''/?#'')
      in (takeWhile (\<lambda>c. \<not> delim c) (drop 2 url),
          dropWhile (\<lambda>c. \<not> delim c) (drop 2 url)))"

definition checknetloc :: "env \<Rightarrow> string \<Rightarrow> exn option" where
  "checknetloc env netloc =
     (if netloc = [] \<or> list_all isascii netloc then None
      else (let n = filter (\<lambda>c. c \<notin> set ''@:#?'') netloc;
                netloc2 = normalize_NFKC env n
            in if n = netloc2 then None
               else if list_ex (\<lambda>c. c \<in> set netloc2) ''/?#@:''
               then Some (ValueError (''netloc '' @ netloc
                            @ '' contains invalid characters under NFKC normalization''))
               else None))"

text \<open>
  \<open>_check_bracketed_host\<close>: a host starting with \<open>v\<close> must match
  \<open>\Av[a-fA-F0-9]+\..+\Z\<close>; any other must be an IPv6 address.
\<close>

definition check_bracketed_host :: "env \<Rightarrow> string \<Rightarrow> exn option" where
  "check_bracketed_host env hostname =
     (if startswith hostname ''v''
      then (let digits = takeWhile (\<lambda>c. c \<in> set hex_digits) (drop 1 hostname);
                rest = dropWhile (\<lambda>c. c \<in> set hex_digits) (drop 1 hostname)
            in if digits \<noteq> [] \<and> take 1 rest = ''.'' \<and> drop 1 rest \<noteq> []
                  \<and> char_of (10 :: nat) \<notin> set (drop 1 rest)
               then None
               else Some (ValueError ''IPvFuture address is invalid''))
      else (case ip_address env hostname of
              Inl msg \<Rightarrow> Some (ValueError msg)
            | Inr IPv4Address \<Rightarrow> Some (ValueError ''An IPv4 address cannot be in brackets'')
            | Inr IPv6Address \<Rightarrow> None))"

text \<open>
  \<open>netloc.partition('[')[2].partition(']')[0]\<close>: what follows the first \<open>[\<close>, up to
  the next \<open>]\<close>.
\<close>

definition bracketed_host :: "string \<Rightarrow> string" where
  "bracketed_host netloc =
     takeWhile (\<lambda>c. c \<noteq> CHR '']'') (drop 1 (dropWhile (\<lambda>c. c \<noteq> CHR ''['') netloc))"

text \<open>\<open>urlsplit(url, scheme)\<close>: scheme, netloc, path, query, fragment.\<close>

definition urlsplit ::
  "env \<Rightarrow> string \<Rightarrow> string \<Rightarrow> exn + string \<times> string \<times> string \<times> string \<times> string" where
  "urlsplit env url0 scheme0 =
     (let url = dropWhile c0_control_or_space url0;
          scheme = rev (dropWhile c0_control_or_space
                     (rev (dropWhile c0_control_or_space scheme0)));
          url = filter (\<lambda>c. \<not> unsafe_url_byte c) url;
          scheme = filter (\<lambda>c. \<not> unsafe_url_byte c) scheme;
          i = str_find url CHR '':'' 0;
          (scheme, url) =
            (if i > 0 \<and> ascii_isalpha (hd url)
                \<and> list_all (\<lambda>c. c \<in> set scheme_chars) (take (nat i) url)
             then (lower (take (nat i) url), drop (nat i + 1) url)
             else (scheme, url))
      in case (if take 2 url = ''//''
               then (let (netloc, url) = splitnetloc url;
                         has_open = (CHR ''['' \<in> set netloc);
                         has_close = (CHR '']'' \<in> set netloc)
                     in if (has_open \<and> \<not> has_close) \<or> (has_close \<and> \<not> has_open)
                        then Inl (ValueError ''Invalid IPv6 URL'')
                        else if has_open \<and> has_close
                        then (case check_bracketed_host env (bracketed_host netloc) of
                                Some e \<Rightarrow> Inl e
                              | None \<Rightarrow> Inr (netloc, url))
                        else Inr (netloc, url))
               else Inr ([], url)) of
           Inl e \<Rightarrow> Inl e
         | Inr (netloc, url) \<Rightarrow>
             (let (url, fragment) =
                    (if CHR ''#'' \<in> set url then split_once CHR ''#'' url else (url, []));
                  (url, query) =
                    (if CHR ''?'' \<in> set url then split_once CHR ''?'' url else (url, []))
              in case checknetloc env netloc of
                   Some e \<Rightarrow> Inl e
                 | None \<Rightarrow> Inr (scheme, netloc, url, query, fragment)))"

text \<open>\<open>urlparse(url, scheme)\<close>: scheme, netloc, path, params, query, fragment.\<close>

definition urlparse ::
  "env \<Rightarrow> string \<Rightarrow> string
     \<Rightarrow> exn + string \<times> string \<times> string \<times> string \<times> string \<times> string" where
  "urlparse env url0 scheme0 =
     (case urlsplit env url0 scheme0 of
        Inl e \<Rightarrow> Inl e
      | Inr (scheme, netloc, url, query, fragment) \<Rightarrow>
          (let (url, params) =
                 (if scheme \<in> set uses_params \<and> CHR '';'' \<in> set url
                  then splitparams url else (url, []))
           in Inr (scheme, netloc, url, params, query, fragment)))"

definition urlunsplit :: "string \<times> string \<times> string \<times> string \<times> string \<Rightarrow> string" where
  "urlunsplit components =
     (let (scheme, netloc, url, query, fragment) = components;
          url = (if netloc \<noteq> [] \<or> (scheme \<noteq> [] \<and> scheme \<in> set uses_netloc)
                    \<or> take 2 url = ''//''
                 then ''//'' @ netloc
                      @ (if url \<noteq> [] \<and> take 1 url \<noteq> ''/'' then ''/'' @ url else url)
                 else url);
          url = (if scheme \<noteq> [] then scheme @ '':'' @ url else url);
          url = (if query \<noteq> [] then url @ ''?'' @ query else url);
          url = (if fragment \<noteq> [] then url @ ''#'' @ fragment else url)
      in url)"

definition urlunparse ::
  "string \<times> string \<times> string \<times> string \<times> string \<times> string \<Rightarrow> string" where
  "urlunparse components =
     (let (scheme, netloc, url, params, query, fragment) = components;
          url = (if params \<noteq> [] then url @ '';'' @ params else url)
      in urlunsplit (scheme, netloc, url, query, fragment))"

text \<open>
  The loop of \<open>urljoin\<close> over the segments: \<open>..\<close> pops the resolved path (a pop from
  the empty path is ignored), \<open>.\<close> is skipped, anything else is appended.
\<close>

fun resolve_segments :: "string list \<Rightarrow> string list \<Rightarrow> string list" where
  "resolve_segments resolved_path [] = resolved_path"
| "resolve_segments resolved_path (seg # segments) =
     (if seg = ''..'' then resolve_segments (butlast resolved_path) segments
      else if seg = ''.'' then resolve_segments resolved_path segments
      else resolve_segments (resolved_path @ [seg]) segments)"

definition urljoin :: "env \<Rightarrow> string \<Rightarrow> string \<Rightarrow> exn + string" where
  "urljoin env base url =
     (if base = [] then Inr url
      else if url = [] then Inr base
      else case urlparse env base [] of
        Inl e \<Rightarrow> Inl e
      | Inr (bscheme, bnetloc, bpath, bparams, bquery, bfragment) \<Rightarrow>
      (case urlparse env url bscheme of
        Inl e \<Rightarrow> Inl e
      | Inr (scheme, netloc, path, params, query, fragment) \<Rightarrow>
          if scheme \<noteq> bscheme \<or> scheme \<notin> set uses_relative then Inr url
          else if scheme \<in> set uses_netloc \<and> netloc \<noteq> []
          then Inr (urlunparse (scheme, netloc, path, params, query, fragment))
          else
            (let netloc = (if scheme \<in> set uses_netloc then bnetloc else netloc)
             in if path = [] \<and> params = []
                then Inr (urlunparse (scheme, netloc, bpath, bparams,
                            (if query = [] then bquery else query), fragment))
                else
                  (let base_parts = str_split CHR ''/'' bpath;
                       base_parts = (if last base_parts \<noteq> [] then butlast base_parts
                                     else base_parts);
                       segments =
                         (if take 1 path = ''/'' then str_split CHR ''/'' path
                          else (let segments = base_parts @ str_split CHR ''/'' path
                                in take 1 segments
                                   @ filter (\<lambda>seg. seg \<noteq> []) (butlast (drop 1 segments))
                                   @ (if 2 \<le> length segments then [last segments] else [])));
                       resolved_path = resolve_segments [] segments;
                       resolved_path =
                         (if last segments \<in> {''.'', ''..''} then resolved_path @ [[]]
                          else resolved_path);
                       joined = str_join ''/'' resolved_path
                   in Inr (urlunparse (scheme, netloc,
                             (if joined = [] then ''/'' else joined),
                             params, query, fragment))))))"

subsection \<open>File system operations\<close>

text \<open>
  \<open>os.makedirs(folder, exist_ok=True)\<close>: nothing to do for a directory that exists;
  otherwise the directory is created, empty, unless the system refuses.
\<close>

definition os_makedirs :: "string \<Rightarrow> world \<Rightarrow> exn option \<times> world" where
  "os_makedirs folder w =
     (if folder = [] then (Some (OSError folder), w)
      else case dirs w (rstrip_slashes folder) of
        Some entries \<Rightarrow> (None, w)
      | None \<Rightarrow>
          if denied w folder then (Some (OSError folder), w)
          else (None, w\<lparr>dirs := (dirs w)(rstrip_slashes folder \<mapsto> [])\<rparr>))"

text \<open>\<open>os.listdir(folder)\<close>: the names of the entries, in the directory's order.\<close>

definition os_listdir :: "string \<Rightarrow> world \<Rightarrow> exn + string list" where
  "os_listdir folder w =
     (if folder = [] then Inl (OSError folder)
      else case dirs w (rstrip_slashes folder) of
        None \<Rightarrow> Inl (OSError folder)
      | Some entries \<Rightarrow> Inr (map fst entries))"

text \<open>
  Storing a file under a name: an entry of that name is replaced where it stands, a new
  entry is listed last (the program never depends on where: it sorts the listing).
\<close>

fun put_entry :: "string \<Rightarrow> entry \<Rightarrow> (string \<times> entry) list \<Rightarrow> (string \<times> entry) list" where
  "put_entry name e [] = [(name, e)]"
| "put_entry name e ((n, x) # entries) =
     (if n = name then (name, e) # entries else (n, x) # put_entry name e entries)"

text \<open>
  \<open>open(path, 'w')\<close> and \<open>open(path, 'wb')\<close>: the file is created or truncated. It
  fails when the directory of the path does not exist, when the name is not the name of
  a file (\<open>''\<close>, \<open>.\<close>, \<open>..\<close> or a subdirectory), and when the system refuses.
\<close>

definition open_write :: "string \<Rightarrow> world \<Rightarrow> exn option \<times> world" where
  "open_write path w =
     (let (d, name) = os_path_split path
      in case dirs w d of
           None \<Rightarrow> (Some (OSError path), w)
         | Some entries \<Rightarrow>
             if name \<in> {[], ''.'', ''..''} \<or> map_of entries name = Some Subdirectory
                \<or> denied w path
             then (Some (OSError path), w)
             else (None, w\<lparr>dirs := (dirs w)(d \<mapsto> put_entry name (RegularFile []) entries)\<rparr>))"

text \<open>\<open>f.write(data)\<close> on the file opened at \<open>path\<close>: the data is appended.\<close>

definition file_write :: "string \<Rightarrow> string \<Rightarrow> world \<Rightarrow> exn option \<times> world" where
  "file_write path data w =
     (let (d, name) = os_path_split path
      in case dirs w d of
           None \<Rightarrow> (Some (OSError path), w)
         | Some entries \<Rightarrow>
             (case map_of entries name of
                Some (RegularFile old) \<Rightarrow>
                  if write_fails w path then (Some (OSError path), w)
                  else (None, w\<lparr>dirs := (dirs w)(d \<mapsto>
                                 put_entry name (RegularFile (old @ data)) entries)\<rparr>)
              | _ \<Rightarrow> (Some (OSError path), w)))"

text \<open>The content of the regular file at a path, if there is one.\<close>

definition read_file :: "string \<Rightarrow> world \<Rightarrow> string option" where
  "read_file path w =
     (let (d, name) = os_path_split path
      in case dirs w d of
           None \<Rightarrow> None
         | Some entries \<Rightarrow>
             (case map_of entries name of
                Some (RegularFile content) \<Rightarrow> Some content
              | _ \<Rightarrow> None))"

text \<open>\<open>shutil.rmtree(folder)\<close>.\<close>

definition shutil_rmtree :: "string \<Rightarrow> world \<Rightarrow> exn option \<times> world" where
  "shutil_rmtree folder w =
     (if folder = [] then (Some (OSError folder), w)
      else case dirs w (rstrip_slashes folder) of
        None \<Rightarrow> (Some (OSError folder), w)
      | Some entries \<Rightarrow>
          if denied w folder then (Some (OSError folder), w)
          else (None, w\<lparr>dirs := (dirs w)(rstrip_slashes folder := None)\<rparr>))"

subsection \<open>Downloading one segment\<close>

text \<open>The body of the \<open>try\<close> of \<open>download_ts_segment\<close>: the exception it raises, if any.\<close>

definition download_ts_segment_try ::
  "env \<Rightarrow> string \<Rightarrow> string \<Rightarrow> world \<Rightarrow> exn option \<times> world" where
  "download_ts_segment_try env ts_url output_folder w =
     (case urlparse env ts_url [] of
        Inl e \<Rightarrow> (Some e, w)
      | Inr (scheme, netloc, path, params, query, fragment) \<Rightarrow>
          (let filename = os_path_basename path;
               output_path = os_path_join output_folder filename
           in case session_get env ts_url of
                Inl e \<Rightarrow> (Some e, w)
              | Inr ts_content \<Rightarrow>
                  (case open_write output_path w of
                     (Some e, w') \<Rightarrow> (Some e, w')
                   | (None, w') \<Rightarrow> file_write output_path ts_content w')))"

text \<open>
  \<open>download_ts_segment\<close>: the \<open>try\<close> with its handler \<open>except Exception\<close>, which every
  exception of \<open>exn\<close> matches. The first component is the exception that leaves the
  function.
\<close>

definition download_ts_segment ::
  "env \<Rightarrow> string \<Rightarrow> string \<Rightarrow> world \<Rightarrow> exn option \<times> world" where
  "download_ts_segment env ts_url output_folder w =
     (case download_ts_segment_try env ts_url output_folder w of
        (Some e, w') \<Rightarrow> (None, print (Failed_to_download ts_url e) w')
      | (None, w') \<Rightarrow> (None, w'))"

subsection \<open>The playlist and the thread pool\<close>

text \<open>
  The comprehension
  \<open>[urljoin(m3u8_url, line) for line in lines if line and not line.startswith("#")]\<close>;
  it raises what the first failing \<open>urljoin\<close> raises. \<open>chunk_line\<close> is its condition.
\<close>

definition chunk_line :: "string \<Rightarrow> bool" where
  "chunk_line line = (line \<noteq> [] \<and> \<not> startswith line ''#'')"

fun ts_urls_of :: "env \<Rightarrow> string \<Rightarrow> string list \<Rightarrow> exn + string list" where
  "ts_urls_of env m3u8_url [] = Inr []"
| "ts_urls_of env m3u8_url (line # lines) =
     (if chunk_line line
      then (case urljoin env m3u8_url line of
              Inl e \<Rightarrow> Inl e
            | Inr ts_url \<Rightarrow>
                (case ts_urls_of env m3u8_url lines of
                   Inl e \<Rightarrow> Inl e
                 | Inr ts_urls \<Rightarrow> Inr (ts_url # ts_urls)))
      else ts_urls_of env m3u8_url lines)"

text \<open>
  The submitted units run on the pool until none is pending. The model runs them one
  after the other, in the order in which the scheduler completes them, each as one step
  on the world. The result lists the futures in that order: the submitted reference and
  the exception stored in the future, if any.
\<close>

function run_pool ::
  "env \<Rightarrow> string \<Rightarrow> string list \<Rightarrow> world \<Rightarrow> (string \<times> exn option) list \<times> world" where
  "run_pool env output_folder pending w =
     (if pending = [] then ([], w)
      else (let i = next_done env pending mod length pending;
                (r, w') = download_ts_segment env (pending ! i) output_folder w;
                (rs, w'') = run_pool env output_folder
                              (take i pending @ drop (Suc i) pending) w'
            in ((pending ! i, r) # rs, w'')))"
  by pat_completeness auto
termination
proof (relation "measure (\<lambda>(env, output_folder, pending, w). length pending)")
  show "wf (measure (\<lambda>(env, output_folder, pending, w). length pending))"
    by simp
next
  fix env :: env and output_folder :: string and pending :: "string list" and w w' :: world
    and i :: nat
  assume "pending \<noteq> []" and i: "i = next_done env pending mod length pending"
  then have "i < length pending"
    by simp
  then have "length (take i pending @ drop (Suc i) pending) < length pending"
    by simp
  then show "((env, output_folder, take i pending @ drop (Suc i) pending, w'),
              (env, output_folder, pending, w))
             \<in> measure (\<lambda>(env, output_folder, pending, w). length pending)"
    by simp
qed

declare run_pool.simps [simp del]

text \<open>
  \<open>for future in as_completed(futures): future.result(); progress_bar.update(1)\<close>:
  \<open>future.result()\<close> raises the exception stored in the future.
\<close>

fun as_completed_loop ::
  "(string \<times> exn option) list \<Rightarrow> world \<Rightarrow> exn option \<times> world" where
  "as_completed_loop [] w = (None, w)"
| "as_completed_loop (future # futures) w =
     (case snd future of
        Some e \<Rightarrow> (Some e, w)
      | None \<Rightarrow> as_completed_loop futures (w\<lparr>progress := progress w + 1\<rparr>))"

definition download_m3u8 :: "env \<Rightarrow> string \<Rightarrow> string \<Rightarrow> world \<Rightarrow> exn option \<times> world" where
  "download_m3u8 env m3u8_url output_folder w =
     (case session_get env m3u8_url of
        Inl e \<Rightarrow> (Some e, w)
      | Inr m3u8_content \<Rightarrow>
          (case os_makedirs output_folder w of
             (Some e, w1) \<Rightarrow> (Some e, w1)
           | (None, w1) \<Rightarrow>
               (case ts_urls_of env m3u8_url (splitlines m3u8_content) of
                  Inl e \<Rightarrow> (Some e, w1)
                | Inr ts_urls \<Rightarrow>
                    (let (futures, w2) = run_pool env output_folder ts_urls w1
                     in case as_completed_loop futures (w2\<lparr>progress := 0\<rparr>) of
                          (Some e, w3) \<Rightarrow> (Some e, w3)
                        | (None, w3) \<Rightarrow> (None, print (Downloaded_all output_folder) w3)))))"

subsection \<open>The manifest\<close>

text \<open>What a Python function returns.\<close>

datatype pyvalue = PyNone | PyInt int

definition ts_files_of :: "string list \<Rightarrow> string list" where
  "ts_files_of listing = sort (filter (\<lambda>f. endswith f ''.ts'') listing)"

definition manifest_line :: "string \<Rightarrow> string \<Rightarrow> string" where
  "manifest_line output_folder ts_file =
     ''file '' @ [CHR 0x27] @ os_path_join output_folder ts_file @ [CHR 0x27, CHR 0x0A]"

text \<open>The loop \<open>for ts_file in ts_files: file_list.write(...)\<close>.\<close>

fun write_lines :: "string \<Rightarrow> string list \<Rightarrow> world \<Rightarrow> exn option \<times> world" where
  "write_lines path [] w = (None, w)"
| "write_lines path (l # ls) w =
     (case file_write path l w of
        (Some e, w') \<Rightarrow> (Some e, w')
      | (None, w') \<Rightarrow> write_lines path ls w')"

text \<open>
  \<open>create_file_list\<close> has no \<open>return\<close> statement: when it does not raise, it returns
  \<open>None\<close>.
\<close>

definition create_file_list ::
  "string \<Rightarrow> string \<Rightarrow> world \<Rightarrow> (exn + pyvalue) \<times> world" where
  "create_file_list output_folder list_file_name w =
     (case os_listdir output_folder w of
        Inl e \<Rightarrow> (Inl e, w)
      | Inr listing \<Rightarrow>
          (let ts_files = ts_files_of listing
           in case open_write list_file_name w of
                (Some e, w1) \<Rightarrow> (Inl e, w1)
              | (None, w1) \<Rightarrow>
                  (case write_lines list_file_name
                          (map (manifest_line output_folder) ts_files) w1 of
                     (Some e, w2) \<Rightarrow> (Inl e, w2)
                   | (None, w2) \<Rightarrow>
                       (Inr PyNone,
                        print (Created_list list_file_name (length ts_files)) w2))))"

subsection \<open>The encoder invocation\<close>

text \<open>
  \<open>subprocess.run(command, check=True, capture_output=False, text=True)\<close>: the
  environment gives, for a command, the return code of the process and what it wrote
  to its standard error, or the exception of a process that could not be started.
  With \<open>check=True\<close> a non-zero return code raises \<open>CalledProcessError\<close>; since the
  output is not captured, its \<open>stderr\<close> attribute is \<open>None\<close>.
\<close>

definition subprocess_run_check ::
  "(string list \<Rightarrow> exn + int \<times> string) \<Rightarrow> string list \<Rightarrow> exn option" where
  "subprocess_run_check run command =
     (case run command of
        Inl e \<Rightarrow> Some e
      | Inr (returncode, diagnostics) \<Rightarrow>
          if returncode \<noteq> 0 then Some (CalledProcessError returncode command None)
          else None)"

definition ffmpeg_command :: "string \<Rightarrow> string \<Rightarrow> bool \<Rightarrow> string list" where
  "ffmpeg_command input_file output_file compress =
     (let command = [''ffmpeg'', ''-f'', ''concat'', ''-safe'', ''0'', ''-i'', input_file];
          command = (if compress
                     then command @ [''-c:v'', ''libx264'', ''-crf'', ''23'',
                                     ''-preset'', ''medium'', ''-c:a'', ''aac'',
                                     ''-b:a'', ''128k'']
                     else command @ [''-c'', ''copy''])
      in command @ [output_file])"

definition execute_ffmpeg_command ::
  "(string list \<Rightarrow> exn + int \<times> string) \<Rightarrow> string \<Rightarrow> string \<Rightarrow> bool \<Rightarrow> world
     \<Rightarrow> exn option \<times> world" where
  "execute_ffmpeg_command run input_file output_file compress w =
     (let command = ffmpeg_command input_file output_file compress
      in case subprocess_run_check run command of
           None \<Rightarrow> (None, print (Successfully_created output_file) w)
         | Some (CalledProcessError rc cmd err) \<Rightarrow>
             (None, print (Ffmpeg_stderr err)
                      (print (Error_executing (CalledProcessError rc cmd err)) w))
         | Some e \<Rightarrow> (Some e, w))"

subsection \<open>The script\<close>

record args =
  arg_url :: string
  arg_output :: string
  arg_compress :: bool

text \<open>
  The \<open>__main__\<close> block. The result is the exit status of the interpreter: 1 when an
  exception leaves the script, 0 when the script runs to its end.
\<close>

definition main :: "env \<Rightarrow> args \<Rightarrow> world \<Rightarrow> int \<times> world" where
  "main env a w =
     (case download_m3u8 env (arg_url a) ''output'' w of
        (Some e, w1) \<Rightarrow> (1, w1)
      | (None, w1) \<Rightarrow>
     (case create_file_list ''output'' ''file_list.txt'' w1 of
        (Inl e, w2) \<Rightarrow> (1, w2)
      | (Inr v, w2) \<Rightarrow>
     (case execute_ffmpeg_command (subprocess_run env) ''file_list.txt''
             (arg_output a) (arg_compress a) w2 of
        (Some e, w3) \<Rightarrow> (1, w3)
      | (None, w3) \<Rightarrow>
     (case shutil_rmtree ''output''
             (if arg_compress a then print Video_compressed w3 else w3) of
        (Some e, w4) \<Rightarrow> (1, w4)
      | (None, w4) \<Rightarrow> (0, w4)))))"

subsection \<open>A sample run\<close>

text \<open>
  A playlist of four entries between directives and a blank line; the second segment
  cannot be fetched, the last entry has no \<open>.ts\<close> extension; ffmpeg exits with status
  1; the pool completes the second of the pending units first.
\<close>

definition sample_url :: string where
  "sample_url = ''https://host/path/playlist.m3u8''"

definition sample_playlist :: string where
  "sample_playlist =
     ''#EXTM3U'' @ [CHR 0x0A] @ ''seg000.ts'' @ [CHR 0x0A] @ [CHR 0x0A]
     @ ''#EXTINF:10,'' @ [CHR 0x0A] @ ''seg001.ts'' @ [CHR 0x0A]
     @ ''seg002.ts'' @ [CHR 0x0A] @ ''clip'' @ [CHR 0x0A]"

definition sample_env :: env where
  "sample_env =
     \<lparr>session_get = (\<lambda>url. if url = sample_url then Inr sample_playlist
                            else if url = ''https://host/path/seg001.ts''
                            then Inl (RequestException ''timed out'')
                            else Inr (''data of '' @ url)),
      subprocess_run = (\<lambda>command. Inr (1, ''Invalid data found'')),
      next_done = (\<lambda>pending. 1),
      normalize_NFKC = (\<lambda>s. s),
      ip_address = (\<lambda>s. Inl ''not an address'')\<rparr>"

definition sample_world :: world where
  "sample_world =
     \<lparr>dirs = (\<lambda>p. if p = [] then Some [] else None),
      denied = (\<lambda>p. False),
      write_fails = (\<lambda>p. False),
      stdout = [],
      progress = 0\<rparr>"

definition sample_args :: args where
  "sample_args = \<lparr>arg_url = sample_url, arg_output = ''output.mp4'', arg_compress = False\<rparr>"

definition bad_playlist :: string where
  "bad_playlist = ''seg000.ts'' @ [CHR 0x0A] @ ''http://[::1/seg001.ts'' @ [CHR 0x0A]"

definition sample_downloaded :: world where
  "sample_downloaded = snd (download_m3u8 sample_env sample_url ''output'' sample_world)"

definition sample_folder_made :: world where
  "sample_folder_made = snd (os_makedirs ''output'' sample_world)"

definition sample_clip_stored :: world where
  "sample_clip_stored =
     snd (download_ts_segment_try sample_env ''https://host/path/clip'' ''output''
            sample_folder_made)"

definition offline_env :: env where
  "offline_env = sample_env\<lparr>session_get := (\<lambda>url. Inl (RequestException ''unreachable''))\<rparr>"

text \<open>
  What no operation of the program changes: the refusals of the system stay as they
  are, and a directory that exists goes on existing (until \<open>shutil.rmtree\<close>).
\<close>

definition keeps :: "world \<Rightarrow> world \<Rightarrow> bool" where
  "keeps w w' =
     (denied w' = denied w \<and> write_fails w' = write_fails w
      \<and> (\<forall>d. dirs w d \<noteq> None \<longrightarrow> dirs w' d \<noteq> None))"

section \<open>Properties\<close>

subsection \<open>The chunk references of a playlist\<close>

lemma ts_urls_of_filter:
  "ts_urls_of env u (filter chunk_line lines) = ts_urls_of env u lines"
  by (induction lines) (simp_all split: sum.splits)

lemma ts_urls_of_Inr:
  "ts_urls_of env u lines = Inr ts_urls \<Longrightarrow>
   list_all2 (\<lambda>line ts_url. urljoin env u line = Inr ts_url) (filter chunk_line lines) ts_urls"
  by (induction lines arbitrary: ts_urls) (auto split: if_splits sum.splits)

lemma ts_urls_of_Inl:
  "ts_urls_of env u lines = Inl e \<Longrightarrow>
   \<exists>line \<in> set (filter chunk_line lines). urljoin env u line = Inl e"
  by (induction lines) (auto split: if_splits sum.splits)

lemma ts_urls_of_total:
  "\<forall>line \<in> set (filter chunk_line lines). \<exists>r. urljoin env u line = Inr r \<Longrightarrow>
   \<exists>ts_urls. ts_urls_of env u lines = Inr ts_urls"
  by (induction lines) (auto split: if_splits sum.splits)

text \<open>
  C1, as stated, fails: a kept line that \<open>urljoin\<close> rejects makes the comprehension
  raise, and then no chunk reference is produced at all. The playlist \<open>bad_playlist\<close>
  has two kept lines, the second with an unclosed bracket in its host.
\<close>

theorem kept_lines_without_references:
  "filter chunk_line (splitlines bad_playlist) = [''seg000.ts'', ''http://[::1/seg001.ts'']
   \<and> ts_urls_of sample_env sample_url (splitlines bad_playlist)
       = Inl (ValueError ''Invalid IPv6 URL'')"
  by code_simp

text \<open>
  C1, amended. The lines of a playlist that are empty or start with \<open>#\<close> have no
  effect on the outcome, wherever they stand. When the list of references is produced,
  it has one reference per kept line (non-empty, not starting with \<open>#\<close>), in the order
  of the lines, each the \<open>urljoin\<close> of its line. It is produced when every kept line
  resolves; otherwise the comprehension raises the exception of a kept line.
\<close>

theorem playlist_chunk_references:
  "ts_urls_of env m3u8_url lines = ts_urls_of env m3u8_url (filter chunk_line lines)
   \<and> (\<not> chunk_line d \<longrightarrow>
        ts_urls_of env m3u8_url (before @ d # after) = ts_urls_of env m3u8_url (before @ after))
   \<and> (ts_urls_of env m3u8_url lines = Inr ts_urls \<longrightarrow>
        length ts_urls = length (filter chunk_line lines)
        \<and> list_all2 (\<lambda>line ts_url. urljoin env m3u8_url line = Inr ts_url)
             (filter chunk_line lines) ts_urls)
   \<and> ((\<forall>line \<in> set (filter chunk_line lines). \<exists>r. urljoin env m3u8_url line = Inr r) \<longrightarrow>
        (\<exists>ts_urls. ts_urls_of env m3u8_url lines = Inr ts_urls))
   \<and> (ts_urls_of env m3u8_url lines = Inl e \<longrightarrow>
        (\<exists>line \<in> set (filter chunk_line lines). urljoin env m3u8_url line = Inl e))"
proof -
  have "ts_urls_of env m3u8_url (before @ d # after) = ts_urls_of env m3u8_url (before @ after)"
    if "\<not> chunk_line d"
    using that ts_urls_of_filter [of env m3u8_url "before @ d # after"]
      ts_urls_of_filter [of env m3u8_url "before @ after"] by simp
  moreover have "length ts_urls = length (filter chunk_line lines)"
    if "ts_urls_of env m3u8_url lines = Inr ts_urls"
    using ts_urls_of_Inr [OF that] by (simp add: list_all2_lengthD)
  ultimately show ?thesis
    using ts_urls_of_filter [of env m3u8_url lines] ts_urls_of_Inr [of env m3u8_url lines ts_urls]
      ts_urls_of_Inl [of env m3u8_url lines e] ts_urls_of_total [of lines env m3u8_url]
    by simp
qed

theorem playlist_chunk_references_witness:
  "\<not> chunk_line ''#EXTINF:10,''
   \<and> ts_urls_of sample_env sample_url ([''seg000.ts''] @ ''#EXTINF:10,'' # [''seg001.ts''])
       = ts_urls_of sample_env sample_url ([''seg000.ts''] @ [''seg001.ts''])
   \<and> ts_urls_of sample_env sample_url (splitlines sample_playlist) =
       Inr [''https://host/path/seg000.ts'', ''https://host/path/seg001.ts'',
            ''https://host/path/seg002.ts'', ''https://host/path/clip'']
   \<and> filter chunk_line (splitlines sample_playlist)
       = [''seg000.ts'', ''seg001.ts'', ''seg002.ts'', ''clip'']
   \<and> length [''https://host/path/seg000.ts'', ''https://host/path/seg001.ts'',
              ''https://host/path/seg002.ts'', ''https://host/path/clip'']
       = length (filter chunk_line (splitlines sample_playlist))
   \<and> list_all2 (\<lambda>line ts_url. urljoin sample_env sample_url line = Inr ts_url)
        (filter chunk_line (splitlines sample_playlist))
        [''https://host/path/seg000.ts'', ''https://host/path/seg001.ts'',
         ''https://host/path/seg002.ts'', ''https://host/path/clip'']
   \<and> (\<exists>line \<in> set (filter chunk_line (splitlines bad_playlist)).
         urljoin sample_env sample_url line = Inl (ValueError ''Invalid IPv6 URL''))"
proof -
  have a: "ts_urls_of sample_env sample_url (splitlines sample_playlist) =
     Inr [''https://host/path/seg000.ts'', ''https://host/path/seg001.ts'',
          ''https://host/path/seg002.ts'', ''https://host/path/clip'']"
    by code_simp
  have b: "filter chunk_line (splitlines sample_playlist)
           = [''seg000.ts'', ''seg001.ts'', ''seg002.ts'', ''clip'']"
    by code_simp
  have c: "ts_urls_of sample_env sample_url (splitlines bad_playlist)
           = Inl (ValueError ''Invalid IPv6 URL'')"
    by code_simp
  have d: "\<not> chunk_line ''#EXTINF:10,''"
    by code_simp
  show ?thesis
    using a b c d
      playlist_chunk_references [of sample_env sample_url "splitlines sample_playlist"
        "''#EXTINF:10,''" "[''seg000.ts'']" "[''seg001.ts'']"
        "[''https://host/path/seg000.ts'', ''https://host/path/seg001.ts'',
          ''https://host/path/seg002.ts'', ''https://host/path/clip'']" "ValueError []"]
      playlist_chunk_references [of sample_env sample_url "splitlines bad_playlist"
        "[]" "[]" "[]" "[]" "ValueError ''Invalid IPv6 URL''"]
    by simp
qed

subsection \<open>Resolution against the playlist URL\<close>

text \<open>
  C6, as stated, fails for entries that are already absolute: an entry with the scheme
  of the playlist URL and a host is not left as it is, it is put together again from its
  parsed components, with the scheme in lower case and without an empty query.
\<close>

theorem absolute_entry_rewritten:
  "urljoin sample_env sample_url ''HTTPS://host/a.ts'' = Inr ''https://host/a.ts''
   \<and> urljoin sample_env sample_url ''https://host/a.ts?'' = Inr ''https://host/a.ts''
   \<and> ''https://host/a.ts'' \<noteq> ''HTTPS://host/a.ts''
   \<and> ''https://host/a.ts'' \<noteq> ''https://host/a.ts?''"
  by code_simp

lemma urljoin_other_scheme:
  assumes "base \<noteq> []" and "url \<noteq> []"
    and "urlparse env base [] = Inr (bscheme, bnetloc, bpath, bparams, bquery, bfragment)"
    and "urlparse env url bscheme = Inr (scheme, netloc, path, params, query, fragment)"
    and "scheme \<noteq> bscheme"
  shows "urljoin env base url = Inr url"
  using assms by (simp add: urljoin_def)

lemma urljoin_same_scheme_netloc:
  assumes "base \<noteq> []" and "url \<noteq> []"
    and "urlparse env base [] = Inr (bscheme, bnetloc, bpath, bparams, bquery, bfragment)"
    and "urlparse env url bscheme = Inr (scheme, netloc, path, params, query, fragment)"
    and "scheme = bscheme" and "scheme \<in> set uses_relative" and "scheme \<in> set uses_netloc"
    and "netloc \<noteq> []"
  shows "urljoin env base url = Inr (urlunparse (scheme, netloc, path, params, query, fragment))"
  using assms by (simp add: urljoin_def)

text \<open>
  C6, amended. Each chunk reference is the \<open>urljoin\<close> of the playlist URL and its
  line. Under \<open>https://host/path/playlist.m3u8\<close> the entries \<open>seg000.ts\<close>,
  \<open>seg001.ts\<close>, \<open>seg002.ts\<close> resolve to \<open>https://host/path/seg000.ts\<close> and so
  on. An entry whose scheme differs from the scheme of the playlist URL is left as it
  is; an entry with the same scheme and a host is \<open>urlunparse\<close> of its own parsed
  components, whatever the path of the playlist URL.
\<close>

theorem chunk_reference_resolution:
  "(ts_urls_of env m3u8_url lines = Inr ts_urls \<longrightarrow>
      list_all2 (\<lambda>line ts_url. urljoin env m3u8_url line = Inr ts_url)
        (filter chunk_line lines) ts_urls)
   \<and> urljoin env ''https://host/path/playlist.m3u8'' ''seg000.ts''
       = Inr ''https://host/path/seg000.ts''
   \<and> urljoin env ''https://host/path/playlist.m3u8'' ''seg001.ts''
       = Inr ''https://host/path/seg001.ts''
   \<and> urljoin env ''https://host/path/playlist.m3u8'' ''seg002.ts''
       = Inr ''https://host/path/seg002.ts''
   \<and> (base \<noteq> [] \<and> url \<noteq> []
        \<and> urlparse env base [] = Inr (bscheme, bnetloc, bpath, bparams, bquery, bfragment)
        \<and> urlparse env url bscheme = Inr (scheme, netloc, path, params, query, fragment)
        \<longrightarrow> (scheme \<noteq> bscheme \<longrightarrow> urljoin env base url = Inr url)
          \<and> (scheme = bscheme \<and> scheme \<in> set uses_relative \<and> scheme \<in> set uses_netloc
               \<and> netloc \<noteq> [] \<longrightarrow>
               urljoin env base url
                 = Inr (urlunparse (scheme, netloc, path, params, query, fragment))))"
proof -
  have "urljoin env ''https://host/path/playlist.m3u8'' ''seg000.ts''
          = Inr ''https://host/path/seg000.ts''"
    by code_simp
  moreover have "urljoin env ''https://host/path/playlist.m3u8'' ''seg001.ts''
          = Inr ''https://host/path/seg001.ts''"
    by code_simp
  moreover have "urljoin env ''https://host/path/playlist.m3u8'' ''seg002.ts''
          = Inr ''https://host/path/seg002.ts''"
    by code_simp
  moreover have "base \<noteq> [] \<and> url \<noteq> []
        \<and> urlparse env base [] = Inr (bscheme, bnetloc, bpath, bparams, bquery, bfragment)
        \<and> urlparse env url bscheme = Inr (scheme, netloc, path, params, query, fragment)
        \<longrightarrow> (scheme \<noteq> bscheme \<longrightarrow> urljoin env base url = Inr url)
          \<and> (scheme = bscheme \<and> scheme \<in> set uses_relative \<and> scheme \<in> set uses_netloc
               \<and> netloc \<noteq> [] \<longrightarrow>
               urljoin env base url
                 = Inr (urlunparse (scheme, netloc, path, params, query, fragment)))"
    using urljoin_other_scheme [of base url env bscheme bnetloc bpath bparams bquery bfragment
        scheme netloc path params query fragment]
      urljoin_same_scheme_netloc [of base url env bscheme bnetloc bpath bparams bquery
        bfragment scheme netloc path params query fragment]
    by blast
  ultimately show ?thesis
    using ts_urls_of_Inr [of env m3u8_url lines ts_urls] by blast
qed

theorem chunk_reference_resolution_witness:
  "ts_urls_of sample_env sample_url (splitlines sample_playlist) =
       Inr [''https://host/path/seg000.ts'', ''https://host/path/seg001.ts'',
            ''https://host/path/seg002.ts'', ''https://host/path/clip'']
   \<and> list_all2 (\<lambda>line ts_url. urljoin sample_env sample_url line = Inr ts_url)
        (filter chunk_line (splitlines sample_playlist))
        [''https://host/path/seg000.ts'', ''https://host/path/seg001.ts'',
         ''https://host/path/seg002.ts'', ''https://host/path/clip'']
   \<and> urlparse sample_env sample_url [] = Inr (''https'', ''host'', ''/path/playlist.m3u8'', [], [], [])
   \<and> urlparse sample_env ''http://other/a.ts#'' ''https'' = Inr (''http'', ''other'', ''/a.ts'', [], [], [])
   \<and> urljoin sample_env sample_url ''http://other/a.ts#'' = Inr ''http://other/a.ts#''
   \<and> urlparse sample_env ''HTTPS://host/a.ts'' ''https'' = Inr (''https'', ''host'', ''/a.ts'', [], [], [])
   \<and> urljoin sample_env sample_url ''HTTPS://host/a.ts''
       = Inr (urlunparse (''https'', ''host'', ''/a.ts'', [], [], []))"
proof -
  have a: "ts_urls_of sample_env sample_url (splitlines sample_playlist) =
     Inr [''https://host/path/seg000.ts'', ''https://host/path/seg001.ts'',
          ''https://host/path/seg002.ts'', ''https://host/path/clip'']"
    by code_simp
  have b: "urlparse sample_env sample_url []
           = Inr (''https'', ''host'', ''/path/playlist.m3u8'', [], [], [])"
    by code_simp
  have c: "urlparse sample_env ''http://other/a.ts#'' ''https''
           = Inr (''http'', ''other'', ''/a.ts'', [], [], [])"
    by code_simp
  have d: "urlparse sample_env ''HTTPS://host/a.ts'' ''https''
           = Inr (''https'', ''host'', ''/a.ts'', [], [], [])"
    by code_simp
  have e: "sample_url \<noteq> [] \<and> ''https'' \<noteq> ''http'' \<and> ''https'' \<in> set uses_relative
           \<and> ''https'' \<in> set uses_netloc"
    by code_simp
  show ?thesis
    using a b c d e
      chunk_reference_resolution [of sample_env sample_url "splitlines sample_playlist"
        "[''https://host/path/seg000.ts'', ''https://host/path/seg001.ts'',
          ''https://host/path/seg002.ts'', ''https://host/path/clip'']"
        sample_url "''http://other/a.ts#''" "''https''" "''host''" "''/path/playlist.m3u8''"
        "[]" "[]" "[]" "''http''" "''other''" "''/a.ts''" "[]" "[]" "[]"]
      chunk_reference_resolution [of sample_env sample_url "[]" "[]"
        sample_url "''HTTPS://host/a.ts''" "''https''" "''host''" "''/path/playlist.m3u8''"
        "[]" "[]" "[]" "''https''" "''host''" "''/a.ts''" "[]" "[]" "[]"]
    by simp
qed


subsection \<open>Failures of single downloads\<close>

lemma download_ts_segment_returns:
  "fst (download_ts_segment env ts_url output_folder w) = None"
  by (simp add: download_ts_segment_def split: prod.splits option.splits)

lemma mset_without_nth:
  assumes "i < length xs"
  shows "add_mset (xs ! i) (mset (take i xs @ drop (Suc i) xs)) = mset xs"
proof -
  have "mset xs = mset (take i xs @ xs ! i # drop (Suc i) xs)"
    using assms by (simp only: id_take_nth_drop [symmetric])
  then show ?thesis
    by simp
qed

lemma run_pool_Nil: "run_pool env output_folder [] w = ([], w)"
  by (simp add: run_pool.simps)

lemma run_pool_futures:
  "run_pool env output_folder pending w = (futures, w') \<Longrightarrow>
   mset (map fst futures) = mset pending \<and> (\<forall>future \<in> set futures. snd future = None)"
proof (induction env output_folder pending w arbitrary: futures w' rule: run_pool.induct)
  case (1 env output_folder pending w)
  show ?case
  proof (cases "pending = []")
    case True
    with "1.prems" show ?thesis
      by (simp add: run_pool_Nil)
  next
    case False
    define i where "i = next_done env pending mod length pending"
    obtain r w1 where unit: "download_ts_segment env (pending ! i) output_folder w = (r, w1)"
      by (cases "download_ts_segment env (pending ! i) output_folder w")
    obtain rs w2 where rest:
      "run_pool env output_folder (take i pending @ drop (Suc i) pending) w1 = (rs, w2)"
      by (cases "run_pool env output_folder (take i pending @ drop (Suc i) pending) w1")
    from False have i: "i < length pending"
      by (simp add: i_def)
    from unit download_ts_segment_returns [of env "pending ! i" output_folder w]
    have r: "r = None"
      by simp
    from "1.prems" False unit rest have futures: "futures = (pending ! i, r) # rs"
      by (simp add: run_pool.simps [of env output_folder pending w] i_def [symmetric] Let_def)
    from "1.IH" [OF False i_def refl unit [symmetric] rest]
    have "mset (map fst rs) = mset (take i pending @ drop (Suc i) pending)"
      and "\<forall>future \<in> set rs. snd future = None"
      by simp_all
    with futures r mset_without_nth [OF i] show ?thesis
      by simp
  qed
qed

lemma as_completed_loop_all_done:
  "\<forall>future \<in> set futures. snd future = None \<Longrightarrow>
   as_completed_loop futures w = (None, w\<lparr>progress := progress w + length futures\<rparr>)"
  by (induction futures arbitrary: w) simp_all

lemma download_m3u8_completes:
  assumes "session_get env m3u8_url = Inr m3u8_content"
    and "os_makedirs output_folder w = (None, w1)"
    and "ts_urls_of env m3u8_url (splitlines m3u8_content) = Inr ts_urls"
  shows "fst (download_m3u8 env m3u8_url output_folder w) = None"
    and "progress (snd (download_m3u8 env m3u8_url output_folder w)) = length ts_urls"
proof -
  obtain futures w2 where pool: "run_pool env output_folder ts_urls w1 = (futures, w2)"
    by (cases "run_pool env output_folder ts_urls w1")
  from run_pool_futures [OF pool]
  have all: "\<forall>future \<in> set futures. snd future = None"
    and "mset (map fst futures) = mset ts_urls"
    by simp_all
  then have "size (mset (map fst futures)) = size (mset ts_urls)"
    by simp
  then have len: "length futures = length ts_urls"
    by simp
  have loop: "as_completed_loop futures (w2\<lparr>progress := 0\<rparr>)
              = (None, w2\<lparr>progress := length ts_urls\<rparr>)"
    using as_completed_loop_all_done [OF all, of "w2\<lparr>progress := 0\<rparr>"] len by simp
  from assms pool loop
  have "download_m3u8 env m3u8_url output_folder w
        = (None, print (Downloaded_all output_folder) (w2\<lparr>progress := length ts_urls\<rparr>))"
    by (simp add: download_m3u8_def)
  then show "fst (download_m3u8 env m3u8_url output_folder w) = None"
    and "progress (snd (download_m3u8 env m3u8_url output_folder w)) = length ts_urls"
    by (simp_all add: print_def)
qed

text \<open>
  C2. No exception leaves \<open>download_ts_segment\<close>: what its body raises (a network
  error, a file system error, a URL that does not parse) is caught and printed. So every
  future of the pool holds no exception: the futures are those of all the submitted
  references, each once, the loop over the completed futures reaches its end with one
  progress step per reference, and \<open>download_m3u8\<close> returns normally once the
  playlist is fetched and resolved and the folder exists.
\<close>

theorem download_failures_isolated:
  "fst (download_ts_segment env ts_url output_folder w) = None
   \<and> (download_ts_segment_try env ts_url output_folder w = (Some e, w') \<longrightarrow>
        download_ts_segment env ts_url output_folder w
          = (None, print (Failed_to_download ts_url e) w'))
   \<and> (run_pool env output_folder ts_urls w = (futures, w'') \<longrightarrow>
        mset (map fst futures) = mset ts_urls
        \<and> (\<forall>future \<in> set futures. snd future = None)
        \<and> as_completed_loop futures v = (None, v\<lparr>progress := progress v + length ts_urls\<rparr>))
   \<and> (session_get env m3u8_url = Inr m3u8_content
        \<and> os_makedirs output_folder w = (None, w1)
        \<and> ts_urls_of env m3u8_url (splitlines m3u8_content) = Inr ts_urls \<longrightarrow>
        fst (download_m3u8 env m3u8_url output_folder w) = None
        \<and> progress (snd (download_m3u8 env m3u8_url output_folder w)) = length ts_urls)"
proof -
  have "mset (map fst futures) = mset ts_urls
        \<and> (\<forall>future \<in> set futures. snd future = None)
        \<and> as_completed_loop futures v = (None, v\<lparr>progress := progress v + length ts_urls\<rparr>)"
    if pool: "run_pool env output_folder ts_urls w = (futures, w'')"
  proof -
    from run_pool_futures [OF pool]
    have all: "\<forall>future \<in> set futures. snd future = None"
      and eq: "mset (map fst futures) = mset ts_urls"
      by simp_all
    from eq have "size (mset (map fst futures)) = size (mset ts_urls)"
      by simp
    then have "length futures = length ts_urls"
      by simp
    with all eq as_completed_loop_all_done [OF all, of v] show ?thesis
      by simp
  qed
  moreover have "download_ts_segment env ts_url output_folder w
                 = (None, print (Failed_to_download ts_url e) w')"
    if "download_ts_segment_try env ts_url output_folder w = (Some e, w')"
    using that by (simp add: download_ts_segment_def)
  ultimately show ?thesis
    using download_ts_segment_returns [of env ts_url output_folder w]
      download_m3u8_completes [of env m3u8_url m3u8_content output_folder w w1 ts_urls]
    by blast
qed

theorem download_failures_isolated_witness:
  "download_ts_segment_try sample_env ''https://host/path/seg001.ts'' ''output'' sample_world
     = (Some (RequestException ''timed out''), sample_world)
   \<and> download_ts_segment sample_env ''https://host/path/seg001.ts'' ''output'' sample_world
     = (None, print (Failed_to_download ''https://host/path/seg001.ts''
                       (RequestException ''timed out'')) sample_world)
   \<and> mset (map fst (fst (run_pool sample_env ''output''
             [''https://host/path/seg000.ts'', ''https://host/path/seg001.ts'',
              ''https://host/path/seg002.ts'', ''https://host/path/clip'']
             (snd (os_makedirs ''output'' sample_world)))))
       = mset [''https://host/path/seg000.ts'', ''https://host/path/seg001.ts'',
               ''https://host/path/seg002.ts'', ''https://host/path/clip'']
   \<and> session_get sample_env sample_url = Inr sample_playlist
   \<and> fst (os_makedirs ''output'' sample_world) = None
   \<and> ts_urls_of sample_env sample_url (splitlines sample_playlist)
       = Inr [''https://host/path/seg000.ts'', ''https://host/path/seg001.ts'',
              ''https://host/path/seg002.ts'', ''https://host/path/clip'']
   \<and> fst (download_m3u8 sample_env sample_url ''output'' sample_world) = None
   \<and> progress (snd (download_m3u8 sample_env sample_url ''output'' sample_world)) = 4"
proof -
  have a: "download_ts_segment_try sample_env ''https://host/path/seg001.ts'' ''output''
             sample_world = (Some (RequestException ''timed out''), sample_world)"
  proof -
    have "urlparse sample_env ''https://host/path/seg001.ts'' []
          = Inr (''https'', ''host'', ''/path/seg001.ts'', [], [], [])"
      by code_simp
    moreover have "session_get sample_env ''https://host/path/seg001.ts''
                   = Inl (RequestException ''timed out'')"
      by (simp add: sample_env_def sample_url_def)
    ultimately show ?thesis
      by (simp add: download_ts_segment_try_def)
  qed
  have b: "session_get sample_env sample_url = Inr sample_playlist"
    by (simp add: sample_env_def)
  have c: "fst (os_makedirs ''output'' sample_world) = None"
    by code_simp
  then have c': "os_makedirs ''output'' sample_world
                 = (None, snd (os_makedirs ''output'' sample_world))"
    by (simp add: prod_eq_iff)
  have d: "ts_urls_of sample_env sample_url (splitlines sample_playlist)
           = Inr [''https://host/path/seg000.ts'', ''https://host/path/seg001.ts'',
                  ''https://host/path/seg002.ts'', ''https://host/path/clip'']"
    by code_simp
  show ?thesis
    using a b c c' d
      download_failures_isolated [of sample_env "''https://host/path/seg001.ts''" "''output''"
        sample_world "RequestException ''timed out''" sample_world "[]" "[]" sample_world
        sample_world sample_url sample_playlist sample_world]
      download_failures_isolated [of sample_env "''https://host/path/seg001.ts''" "''output''"
        "snd (os_makedirs ''output'' sample_world)" "RequestException ''timed out''" sample_world
        "[''https://host/path/seg000.ts'', ''https://host/path/seg001.ts'',
          ''https://host/path/seg002.ts'', ''https://host/path/clip'']"
        "fst (run_pool sample_env ''output''
             [''https://host/path/seg000.ts'', ''https://host/path/seg001.ts'',
              ''https://host/path/seg002.ts'', ''https://host/path/clip'']
             (snd (os_makedirs ''output'' sample_world)))"
        "snd (run_pool sample_env ''output''
             [''https://host/path/seg000.ts'', ''https://host/path/seg001.ts'',
              ''https://host/path/seg002.ts'', ''https://host/path/clip'']
             (snd (os_makedirs ''output'' sample_world)))"
        sample_world sample_url sample_playlist sample_world]
      download_failures_isolated [of sample_env "''https://host/path/seg001.ts''" "''output''"
        sample_world "RequestException ''timed out''" sample_world
        "[''https://host/path/seg000.ts'', ''https://host/path/seg001.ts'',
          ''https://host/path/seg002.ts'', ''https://host/path/clip'']" "[]" sample_world
        sample_world sample_url sample_playlist "snd (os_makedirs ''output'' sample_world)"]
    by simp
qed


subsection \<open>What the operations preserve\<close>

lemma keeps_refl: "keeps w w"
  by (simp add: keeps_def)

lemma keeps_trans: "keeps w w' \<Longrightarrow> keeps w' w'' \<Longrightarrow> keeps w w''"
  by (simp add: keeps_def)

lemma keeps_print: "keeps w (print m w)"
  by (simp add: keeps_def print_def)

lemma keeps_progress: "keeps w (w\<lparr>progress := n\<rparr>)"
  by (simp add: keeps_def)

lemma open_write_keeps: "open_write path w = (r, w') \<Longrightarrow> keeps w w'"
  by (auto simp: open_write_def keeps_def split: prod.splits option.splits if_splits)

lemma file_write_keeps: "file_write path data w = (r, w') \<Longrightarrow> keeps w w'"
  by (auto simp: file_write_def keeps_def split: prod.splits option.splits entry.splits if_splits)

lemma os_makedirs_keeps: "os_makedirs folder w = (r, w') \<Longrightarrow> keeps w w'"
  by (auto simp: os_makedirs_def keeps_def split: option.splits if_splits)

lemma os_makedirs_exists:
  "os_makedirs folder w = (None, w') \<Longrightarrow> dirs w' (rstrip_slashes folder) \<noteq> None"
  by (auto simp: os_makedirs_def split: option.splits if_splits)

lemma download_ts_segment_try_keeps:
  "download_ts_segment_try env ts_url output_folder w = (r, w') \<Longrightarrow> keeps w w'"
proof (cases "urlparse env ts_url []")
  case (Inl e)
  assume "download_ts_segment_try env ts_url output_folder w = (r, w')"
  with Inl show ?thesis
    by (simp add: download_ts_segment_try_def keeps_refl)
next
  case (Inr parsed)
  assume run: "download_ts_segment_try env ts_url output_folder w = (r, w')"
  obtain scheme netloc path params query fragment
    where parsed: "parsed = (scheme, netloc, path, params, query, fragment)"
    by (cases parsed)
  define output_path where "output_path = os_path_join output_folder (os_path_basename path)"
  show ?thesis
  proof (cases "session_get env ts_url")
    case (Inl e)
    with run Inr parsed show ?thesis
      by (simp add: download_ts_segment_try_def keeps_refl)
  next
    case got: (Inr ts_content)
    obtain r1 w1 where opened: "open_write output_path w = (r1, w1)"
      by (cases "open_write output_path w")
    show ?thesis
    proof (cases r1)
      case (Some e)
      with run Inr parsed got opened have "w' = w1"
        by (simp add: download_ts_segment_try_def output_path_def)
      with open_write_keeps [OF opened] show ?thesis
        by simp
    next
      case None
      with run Inr parsed got opened have "file_write output_path ts_content w1 = (r, w')"
        by (simp add: download_ts_segment_try_def output_path_def)
      from file_write_keeps [OF this] open_write_keeps [OF opened] show ?thesis
        by (rule keeps_trans [rotated])
    qed
  qed
qed

lemma download_ts_segment_keeps:
  "download_ts_segment env ts_url output_folder w = (r, w') \<Longrightarrow> keeps w w'"
  by (auto simp: download_ts_segment_def split: prod.splits option.splits
      dest!: download_ts_segment_try_keeps intro: keeps_trans keeps_print)

lemma run_pool_keeps:
  "run_pool env output_folder pending w = (futures, w') \<Longrightarrow> keeps w w'"
proof (induction env output_folder pending w arbitrary: futures w' rule: run_pool.induct)
  case (1 env output_folder pending w)
  show ?case
  proof (cases "pending = []")
    case True
    with "1.prems" show ?thesis
      by (simp add: run_pool_Nil keeps_refl)
  next
    case False
    define i where "i = next_done env pending mod length pending"
    obtain r w1 where unit: "download_ts_segment env (pending ! i) output_folder w = (r, w1)"
      by (cases "download_ts_segment env (pending ! i) output_folder w")
    obtain rs w2 where rest:
      "run_pool env output_folder (take i pending @ drop (Suc i) pending) w1 = (rs, w2)"
      by (cases "run_pool env output_folder (take i pending @ drop (Suc i) pending) w1")
    from "1.prems" False unit rest have "w' = w2"
      by (simp add: run_pool.simps [of env output_folder pending w] i_def [symmetric] Let_def)
    with "1.IH" [OF False i_def refl unit [symmetric] rest] download_ts_segment_keeps [OF unit]
    show ?thesis
      by (blast intro: keeps_trans)
  qed
qed

lemma as_completed_loop_keeps: "as_completed_loop futures w = (r, w') \<Longrightarrow> keeps w w'"
proof (induction futures arbitrary: w)
  case Nil
  then show ?case by (simp add: keeps_refl)
next
  case (Cons future futures)
  show ?case
  proof (cases "snd future")
    case None
    with Cons.prems have "as_completed_loop futures (w\<lparr>progress := progress w + 1\<rparr>) = (r, w')"
      by simp
    from Cons.IH [OF this] keeps_progress [of w "progress w + 1"] show ?thesis
      by (blast intro: keeps_trans)
  next
    case (Some e)
    with Cons.prems show ?thesis by (simp add: keeps_refl)
  qed
qed

lemma download_m3u8_keeps:
  "download_m3u8 env m3u8_url output_folder w = (r, w') \<Longrightarrow> keeps w w'"
proof (cases "session_get env m3u8_url")
  case (Inl e)
  assume "download_m3u8 env m3u8_url output_folder w = (r, w')"
  with Inl show ?thesis
    by (simp add: download_m3u8_def keeps_refl)
next
  case got: (Inr m3u8_content)
  assume run: "download_m3u8 env m3u8_url output_folder w = (r, w')"
  obtain r1 w1 where made: "os_makedirs output_folder w = (r1, w1)"
    by (cases "os_makedirs output_folder w")
  note k1 = os_makedirs_keeps [OF made]
  show ?thesis
  proof (cases r1)
    case (Some e)
    with run got made k1 show ?thesis
      by (simp add: download_m3u8_def)
  next
    case None
    show ?thesis
    proof (cases "ts_urls_of env m3u8_url (splitlines m3u8_content)")
      case (Inl e)
      with run got made None k1 show ?thesis
        by (simp add: download_m3u8_def)
    next
      case resolved: (Inr ts_urls)
      obtain futures w2 where pool: "run_pool env output_folder ts_urls w1 = (futures, w2)"
        by (cases "run_pool env output_folder ts_urls w1")
      obtain r3 w3 where loop: "as_completed_loop futures (w2\<lparr>progress := 0\<rparr>) = (r3, w3)"
        by (cases "as_completed_loop futures (w2\<lparr>progress := 0\<rparr>)")
      have k3: "keeps w w3"
        using k1 run_pool_keeps [OF pool] keeps_progress [of w2 0] as_completed_loop_keeps [OF loop]
        by (blast intro: keeps_trans)
      from run got made None resolved pool loop
      have "w' = w3 \<or> w' = print (Downloaded_all output_folder) w3"
        by (auto simp: download_m3u8_def split: option.splits)
      with k3 keeps_print [of w3 "Downloaded_all output_folder"] show ?thesis
        by (blast intro: keeps_trans)
    qed
  qed
qed


subsection \<open>Writing files\<close>

lemma map_of_put_entry:
  "map_of (put_entry name e entries) n = (if n = name then Some e else map_of entries n)"
  by (induction entries) auto

lemma put_entry_twice:
  "put_entry name e2 (put_entry name e1 entries) = put_entry name e2 entries"
  by (induction entries) auto

lemma put_entry_same:
  "map_of entries name = Some e \<Longrightarrow> put_entry name e entries = entries"
  by (induction entries) (auto split: if_splits)

lemma open_write_None_iff:
  "open_write path w = (None, w') \<longleftrightarrow>
     (\<exists>entries. dirs w (fst (os_path_split path)) = Some entries
        \<and> snd (os_path_split path) \<notin> {[], ''.'', ''..''}
        \<and> map_of entries (snd (os_path_split path)) \<noteq> Some Subdirectory
        \<and> \<not> denied w path
        \<and> w' = w\<lparr>dirs := (dirs w)(fst (os_path_split path) \<mapsto>
                   put_entry (snd (os_path_split path)) (RegularFile []) entries)\<rparr>)"
  by (auto simp: open_write_def case_prod_beta split: option.splits)

lemma file_write_None_iff:
  "file_write path data w = (None, w') \<longleftrightarrow>
     (\<exists>entries old. dirs w (fst (os_path_split path)) = Some entries
        \<and> map_of entries (snd (os_path_split path)) = Some (RegularFile old)
        \<and> \<not> write_fails w path
        \<and> w' = w\<lparr>dirs := (dirs w)(fst (os_path_split path) \<mapsto>
                   put_entry (snd (os_path_split path)) (RegularFile (old @ data)) entries)\<rparr>)"
  by (auto simp: file_write_def case_prod_beta split: option.splits entry.splits)

lemma write_lines_eq:
  assumes "dirs w (fst (os_path_split path)) = Some entries"
    and "map_of entries (snd (os_path_split path)) = Some (RegularFile old)"
    and "ls = [] \<or> \<not> write_fails w path"
  shows "write_lines path ls w =
           (None, w\<lparr>dirs := (dirs w)(fst (os_path_split path) \<mapsto>
                      put_entry (snd (os_path_split path))
                        (RegularFile (old @ concat ls)) entries)\<rparr>)"
  using assms
proof (induction ls arbitrary: w entries old)
  case Nil
  then show ?case
    by (simp add: put_entry_same fun_upd_idem)
next
  case (Cons l ls)
  define d where "d = fst (os_path_split path)"
  define name where "name = snd (os_path_split path)"
  define w1 where "w1 = w\<lparr>dirs := (dirs w)(d \<mapsto> put_entry name (RegularFile (old @ l)) entries)\<rparr>"
  from Cons.prems have first: "file_write path l w = (None, w1)"
    by (simp add: file_write_None_iff w1_def d_def name_def)
  have "write_lines path ls w1 =
          (None, w1\<lparr>dirs := (dirs w1)(fst (os_path_split path) \<mapsto>
             put_entry (snd (os_path_split path)) (RegularFile ((old @ l) @ concat ls))
               (put_entry name (RegularFile (old @ l)) entries))\<rparr>)"
    using Cons.prems
    by (intro Cons.IH) (simp_all add: w1_def d_def name_def map_of_put_entry)
  moreover have "w1\<lparr>dirs := (dirs w1)(fst (os_path_split path) \<mapsto>
             put_entry (snd (os_path_split path)) (RegularFile ((old @ l) @ concat ls))
               (put_entry name (RegularFile (old @ l)) entries))\<rparr>
        = w\<lparr>dirs := (dirs w)(fst (os_path_split path) \<mapsto>
             put_entry (snd (os_path_split path))
               (RegularFile (old @ concat (l # ls))) entries)\<rparr>"
    by (simp add: w1_def d_def name_def put_entry_twice)
  moreover from first have "write_lines path (l # ls) w = write_lines path ls w1"
    by simp
  ultimately show ?case
    by (simp only:)
qed

lemma write_lines_None_needs:
  "write_lines path ls w = (None, w') \<Longrightarrow> ls = [] \<or> \<not> write_fails w path"
  by (cases ls) (auto simp: file_write_None_iff split: prod.splits option.splits)

lemma write_lines_keeps: "write_lines path ls w = (r, w') \<Longrightarrow> keeps w w'"
proof (induction ls arbitrary: w)
  case Nil
  then show ?case by (simp add: keeps_refl)
next
  case (Cons l ls)
  obtain r1 w1 where first: "file_write path l w = (r1, w1)"
    by (cases "file_write path l w")
  show ?case
  proof (cases r1)
    case None
    with Cons.prems first have "write_lines path ls w1 = (r, w')"
      by simp
    from Cons.IH [OF this] file_write_keeps [OF first] show ?thesis
      by (blast intro: keeps_trans)
  next
    case (Some e)
    with Cons.prems first file_write_keeps [OF first] show ?thesis
      by simp
  qed
qed

lemma create_file_list_Inr_iff:
  "create_file_list output_folder list_file_name w = (Inr v, w') \<longleftrightarrow>
     (\<exists>listing entries.
        os_listdir output_folder w = Inr listing
        \<and> dirs w (fst (os_path_split list_file_name)) = Some entries
        \<and> snd (os_path_split list_file_name) \<notin> {[], ''.'', ''..''}
        \<and> map_of entries (snd (os_path_split list_file_name)) \<noteq> Some Subdirectory
        \<and> \<not> denied w list_file_name
        \<and> (ts_files_of listing = [] \<or> \<not> write_fails w list_file_name)
        \<and> v = PyNone
        \<and> w' = print (Created_list list_file_name (length (ts_files_of listing)))
                 (w\<lparr>dirs := (dirs w)(fst (os_path_split list_file_name) \<mapsto>
                    put_entry (snd (os_path_split list_file_name))
                      (RegularFile (concat (map (manifest_line output_folder)
                                      (ts_files_of listing)))) entries)\<rparr>))"
  (is "?run \<longleftrightarrow> ?char")
proof
  assume run: ?run
  then obtain listing where listing: "os_listdir output_folder w = Inr listing"
    by (cases "os_listdir output_folder w") (simp_all add: create_file_list_def)
  define lines where "lines = map (manifest_line output_folder) (ts_files_of listing)"
  obtain r1 w1 where opened: "open_write list_file_name w = (r1, w1)"
    by (cases "open_write list_file_name w")
  from run listing opened have r1: "r1 = None"
    by (cases r1) (simp_all add: create_file_list_def Let_def)
  obtain r2 w2 where written: "write_lines list_file_name lines w1 = (r2, w2)"
    by (cases "write_lines list_file_name lines w1")
  from run listing opened r1 written have r2: "r2 = None"
    by (cases r2) (simp_all add: create_file_list_def lines_def Let_def)
  from opened r1 obtain entries where entries:
    "dirs w (fst (os_path_split list_file_name)) = Some entries"
    "snd (os_path_split list_file_name) \<notin> {[], ''.'', ''..''}"
    "map_of entries (snd (os_path_split list_file_name)) \<noteq> Some Subdirectory"
    "\<not> denied w list_file_name"
    and w1: "w1 = w\<lparr>dirs := (dirs w)(fst (os_path_split list_file_name) \<mapsto>
               put_entry (snd (os_path_split list_file_name)) (RegularFile []) entries)\<rparr>"
    by (auto simp: open_write_None_iff)
  from written r2 write_lines_None_needs have ok: "lines = [] \<or> \<not> write_fails w1 list_file_name"
    by blast
  then have ok': "ts_files_of listing = [] \<or> \<not> write_fails w list_file_name"
    by (simp add: lines_def w1)
  have "write_lines list_file_name lines w1 =
          (None, w1\<lparr>dirs := (dirs w1)(fst (os_path_split list_file_name) \<mapsto>
             put_entry (snd (os_path_split list_file_name))
               (RegularFile ([] @ concat lines))
               (put_entry (snd (os_path_split list_file_name)) (RegularFile []) entries))\<rparr>)"
    using ok by (intro write_lines_eq) (simp_all add: w1 map_of_put_entry)
  with written have w2: "w2 = w\<lparr>dirs := (dirs w)(fst (os_path_split list_file_name) \<mapsto>
             put_entry (snd (os_path_split list_file_name))
               (RegularFile (concat lines)) entries)\<rparr>"
    by (simp add: w1 put_entry_twice)
  from run listing opened r1 written r2
  have "v = PyNone"
    and "w' = print (Created_list list_file_name (length (ts_files_of listing))) w2"
    by (simp_all add: create_file_list_def lines_def Let_def)
  with listing entries ok' w2 show ?char
    unfolding lines_def by blast
next
  assume ?char
  then obtain listing entries where listing: "os_listdir output_folder w = Inr listing"
    and entries: "dirs w (fst (os_path_split list_file_name)) = Some entries"
      "snd (os_path_split list_file_name) \<notin> {[], ''.'', ''..''}"
      "map_of entries (snd (os_path_split list_file_name)) \<noteq> Some Subdirectory"
      "\<not> denied w list_file_name"
    and ok: "ts_files_of listing = [] \<or> \<not> write_fails w list_file_name"
    and v: "v = PyNone"
    and w': "w' = print (Created_list list_file_name (length (ts_files_of listing)))
                 (w\<lparr>dirs := (dirs w)(fst (os_path_split list_file_name) \<mapsto>
                    put_entry (snd (os_path_split list_file_name))
                      (RegularFile (concat (map (manifest_line output_folder)
                                      (ts_files_of listing)))) entries)\<rparr>)"
    by blast
  define lines where "lines = map (manifest_line output_folder) (ts_files_of listing)"
  define w1 where "w1 = w\<lparr>dirs := (dirs w)(fst (os_path_split list_file_name) \<mapsto>
               put_entry (snd (os_path_split list_file_name)) (RegularFile []) entries)\<rparr>"
  from entries have opened: "open_write list_file_name w = (None, w1)"
    by (simp add: open_write_None_iff w1_def)
  have "write_lines list_file_name lines w1 =
          (None, w1\<lparr>dirs := (dirs w1)(fst (os_path_split list_file_name) \<mapsto>
             put_entry (snd (os_path_split list_file_name))
               (RegularFile ([] @ concat lines))
               (put_entry (snd (os_path_split list_file_name)) (RegularFile []) entries))\<rparr>)"
    using ok by (intro write_lines_eq) (simp_all add: w1_def map_of_put_entry lines_def)
  then have "write_lines list_file_name lines w1 =
          (None, w\<lparr>dirs := (dirs w)(fst (os_path_split list_file_name) \<mapsto>
             put_entry (snd (os_path_split list_file_name))
               (RegularFile (concat lines)) entries)\<rparr>)"
    by (simp add: w1_def put_entry_twice)
  with listing opened v w' show ?run
    by (simp add: create_file_list_def lines_def Let_def)
qed

lemma create_file_list_keeps:
  "create_file_list output_folder list_file_name w = (r, w') \<Longrightarrow> keeps w w'"
proof (cases "os_listdir output_folder w")
  case (Inl e)
  assume "create_file_list output_folder list_file_name w = (r, w')"
  with Inl show ?thesis
    by (simp add: create_file_list_def keeps_refl)
next
  case (Inr listing)
  assume run: "create_file_list output_folder list_file_name w = (r, w')"
  obtain r1 w1 where opened: "open_write list_file_name w = (r1, w1)"
    by (cases "open_write list_file_name w")
  obtain r2 w2 where written:
    "write_lines list_file_name (map (manifest_line output_folder) (ts_files_of listing)) w1
       = (r2, w2)"
    by (cases "write_lines list_file_name
                 (map (manifest_line output_folder) (ts_files_of listing)) w1")
  from run Inr opened written
  have "w' = w1 \<or> w' = w2
        \<or> w' = print (Created_list list_file_name (length (ts_files_of listing))) w2"
    by (auto simp: create_file_list_def Let_def split: option.splits)
  with open_write_keeps [OF opened] write_lines_keeps [OF written]
    keeps_print [of w2 "Created_list list_file_name (length (ts_files_of listing))"]
  show ?thesis
    by (blast intro: keeps_trans)
qed


subsection \<open>The manifest of a directory\<close>

lemma ts_files_of_sorted: "sorted (ts_files_of listing)"
  by (simp add: ts_files_of_def)

lemma ts_files_of_mset:
  "mset (ts_files_of listing) = mset (filter (\<lambda>f. endswith f ''.ts'') listing)"
  by (simp add: ts_files_of_def)

lemma ts_files_of_permuted:
  assumes "mset listing' = mset listing"
  shows "ts_files_of listing' = ts_files_of listing"
proof -
  from assms have "mset (filter (\<lambda>f. endswith f ''.ts'') listing')
                   = mset (filter (\<lambda>f. endswith f ''.ts'') listing)"
    by (simp add: mset_filter)
  then have "mset (ts_files_of listing) = mset (filter (\<lambda>f. endswith f ''.ts'') listing')"
    by (simp add: ts_files_of_mset)
  from this ts_files_of_sorted [of listing] show ?thesis
    unfolding ts_files_of_def [of listing'] by (rule properties_for_sort)
qed

lemma create_file_list_manifest:
  assumes "create_file_list output_folder list_file_name w = (Inr v, w')"
  obtains listing where "os_listdir output_folder w = Inr listing"
    and "v = PyNone"
    and "read_file list_file_name w'
         = Some (concat (map (manifest_line output_folder) (ts_files_of listing)))"
    and "stdout w' = stdout w @ [Created_list list_file_name (length (ts_files_of listing))]"
proof -
  from assms obtain listing entries where "os_listdir output_folder w = Inr listing"
    and "v = PyNone"
    and "w' = print (Created_list list_file_name (length (ts_files_of listing)))
                 (w\<lparr>dirs := (dirs w)(fst (os_path_split list_file_name) \<mapsto>
                    put_entry (snd (os_path_split list_file_name))
                      (RegularFile (concat (map (manifest_line output_folder)
                                      (ts_files_of listing)))) entries)\<rparr>)"
    unfolding create_file_list_Inr_iff by blast
  then show thesis
    by (intro that [of listing])
      (simp_all add: read_file_def print_def case_prod_beta map_of_put_entry)
qed

lemma create_file_list_again:
  assumes run: "create_file_list output_folder list_file_name w = (Inr v, w')"
    and apart: "fst (os_path_split list_file_name) \<noteq> rstrip_slashes output_folder"
  shows "\<exists>w''. create_file_list output_folder list_file_name w' = (Inr PyNone, w'')
               \<and> read_file list_file_name w'' = read_file list_file_name w'"
proof -
  define d where "d = fst (os_path_split list_file_name)"
  define name where "name = snd (os_path_split list_file_name)"
  from run obtain listing entries where listing: "os_listdir output_folder w = Inr listing"
    and entries: "dirs w d = Some entries" "name \<notin> {[], ''.'', ''..''}"
      "\<not> denied w list_file_name"
      "ts_files_of listing = [] \<or> \<not> write_fails w list_file_name"
    and w': "w' = print (Created_list list_file_name (length (ts_files_of listing)))
                 (w\<lparr>dirs := (dirs w)(d \<mapsto>
                    put_entry name
                      (RegularFile (concat (map (manifest_line output_folder)
                                      (ts_files_of listing)))) entries)\<rparr>)"
    unfolding create_file_list_Inr_iff d_def name_def by blast
  define content where
    "content = concat (map (manifest_line output_folder) (ts_files_of listing))"
  define entries' where "entries' = put_entry name (RegularFile content) entries"
  define w'' where
    "w'' = print (Created_list list_file_name (length (ts_files_of listing)))
             (w'\<lparr>dirs := (dirs w')(d \<mapsto> put_entry name (RegularFile content) entries')\<rparr>)"
  from listing apart have listing': "os_listdir output_folder w' = Inr listing"
    by (auto simp: os_listdir_def w' print_def d_def split: if_splits option.splits)
  have "dirs w' d = Some entries'"
    by (simp add: w' print_def entries'_def content_def)
  moreover have "map_of entries' name \<noteq> Some Subdirectory"
    by (simp add: entries'_def map_of_put_entry)
  moreover have "\<not> denied w' list_file_name"
    and "ts_files_of listing = [] \<or> \<not> write_fails w' list_file_name"
    using entries by (simp_all add: w' print_def)
  ultimately have "create_file_list output_folder list_file_name w' = (Inr PyNone, w'')"
    unfolding create_file_list_Inr_iff
    using listing' entries(2) unfolding w''_def content_def d_def name_def by blast
  moreover have "read_file list_file_name w'' = Some content"
    by (simp add: w''_def read_file_def print_def case_prod_beta map_of_put_entry
          d_def [symmetric] name_def [symmetric])
  moreover have "read_file list_file_name w' = Some content"
    by (simp add: w' read_file_def print_def case_prod_beta map_of_put_entry
          d_def [symmetric] name_def [symmetric] content_def)
  ultimately show ?thesis
    by simp
qed

text \<open>
  C3. When the builder returns, the manifest it has written is the concatenation of one
  line \<open>file '<path>'\<close> per entry of the directory with the extension \<open>.ts\<close>, the
  path being the folder joined with the name; the names are in ascending order, which
  on strings is the lexicographic order of the character codes. The manifest does not
  depend on the order in which the directory lists its entries, and running the builder
  again, on the world it has left, writes the same manifest (the list file being outside
  the folder, so that the first run leaves the directory as it was).
\<close>

theorem manifest_of_directory:
  "(create_file_list output_folder list_file_name w = (Inr v, w') \<longrightarrow>
     (\<exists>listing.
        os_listdir output_folder w = Inr listing
        \<and> read_file list_file_name w'
            = Some (concat (map (manifest_line output_folder) (ts_files_of listing)))
        \<and> mset (ts_files_of listing) = mset (filter (\<lambda>f. endswith f ''.ts'') listing)
        \<and> length (ts_files_of listing) = length (filter (\<lambda>f. endswith f ''.ts'') listing)
        \<and> sorted (ts_files_of listing)
        \<and> (\<forall>listing'. mset listing' = mset listing \<longrightarrow>
              ts_files_of listing' = ts_files_of listing)
        \<and> (fst (os_path_split list_file_name) \<noteq> rstrip_slashes output_folder \<longrightarrow>
             (\<exists>w''. create_file_list output_folder list_file_name w' = (Inr PyNone, w'')
                \<and> read_file list_file_name w'' = read_file list_file_name w'))))
   \<and> manifest_line output_folder ts_file
       = ''file '' @ [CHR 0x27] @ os_path_join output_folder ts_file @ [CHR 0x27, CHR 0x0A]"
proof -
  have "\<exists>listing.
        os_listdir output_folder w = Inr listing
        \<and> read_file list_file_name w'
            = Some (concat (map (manifest_line output_folder) (ts_files_of listing)))
        \<and> mset (ts_files_of listing) = mset (filter (\<lambda>f. endswith f ''.ts'') listing)
        \<and> length (ts_files_of listing) = length (filter (\<lambda>f. endswith f ''.ts'') listing)
        \<and> sorted (ts_files_of listing)
        \<and> (\<forall>listing'. mset listing' = mset listing \<longrightarrow>
              ts_files_of listing' = ts_files_of listing)
        \<and> (fst (os_path_split list_file_name) \<noteq> rstrip_slashes output_folder \<longrightarrow>
             (\<exists>w''. create_file_list output_folder list_file_name w' = (Inr PyNone, w'')
                \<and> read_file list_file_name w'' = read_file list_file_name w'))"
    if run: "create_file_list output_folder list_file_name w = (Inr v, w')"
  proof -
    from run obtain listing where "os_listdir output_folder w = Inr listing"
      and "read_file list_file_name w'
           = Some (concat (map (manifest_line output_folder) (ts_files_of listing)))"
      by (rule create_file_list_manifest)
    moreover have "length (ts_files_of listing) = length (filter (\<lambda>f. endswith f ''.ts'') listing)"
      by (simp add: ts_files_of_def)
    ultimately show ?thesis
      using ts_files_of_mset [of listing] ts_files_of_sorted [of listing]
        ts_files_of_permuted [of _ listing] create_file_list_again [OF run]
      by blast
  qed
  then show ?thesis
    by (simp add: manifest_line_def)
qed

lemma sample_builder_value:
  "fst (create_file_list ''output'' ''file_list.txt'' sample_downloaded) = Inr PyNone"
  by code_simp

lemma sample_builder_returns:
  "create_file_list ''output'' ''file_list.txt'' sample_downloaded
     = (Inr PyNone, snd (create_file_list ''output'' ''file_list.txt'' sample_downloaded))"
  using sample_builder_value by (simp add: prod_eq_iff)

lemma sample_listing:
  "os_listdir ''output'' sample_downloaded = Inr [''seg002.ts'', ''clip'', ''seg000.ts'']"
  by code_simp

theorem manifest_of_directory_witness:
  "create_file_list ''output'' ''file_list.txt'' sample_downloaded
     = (Inr PyNone, snd (create_file_list ''output'' ''file_list.txt'' sample_downloaded))
   \<and> os_listdir ''output'' sample_downloaded = Inr [''seg002.ts'', ''clip'', ''seg000.ts'']
   \<and> ts_files_of [''seg002.ts'', ''clip'', ''seg000.ts''] = [''seg000.ts'', ''seg002.ts'']
   \<and> read_file ''file_list.txt''
         (snd (create_file_list ''output'' ''file_list.txt'' sample_downloaded))
       = Some (concat (map (manifest_line ''output'') [''seg000.ts'', ''seg002.ts'']))
   \<and> mset [''clip'', ''seg000.ts'', ''seg002.ts''] = mset [''seg002.ts'', ''clip'', ''seg000.ts'']
   \<and> ts_files_of [''clip'', ''seg000.ts'', ''seg002.ts'']
       = ts_files_of [''seg002.ts'', ''clip'', ''seg000.ts'']
   \<and> fst (os_path_split ''file_list.txt'') \<noteq> rstrip_slashes ''output''
   \<and> (\<exists>w''. create_file_list ''output'' ''file_list.txt''
                (snd (create_file_list ''output'' ''file_list.txt'' sample_downloaded))
              = (Inr PyNone, w'')
            \<and> read_file ''file_list.txt'' w''
              = read_file ''file_list.txt''
                  (snd (create_file_list ''output'' ''file_list.txt'' sample_downloaded)))"
proof -
  note a' = sample_builder_returns and b = sample_listing
  have c: "ts_files_of [''seg002.ts'', ''clip'', ''seg000.ts''] = [''seg000.ts'', ''seg002.ts'']"
    by code_simp
  have d: "fst (os_path_split ''file_list.txt'') \<noteq> rstrip_slashes ''output''"
    by code_simp
  have e: "mset [''clip'', ''seg000.ts'', ''seg002.ts'']
           = mset [''seg002.ts'', ''clip'', ''seg000.ts'']"
    by simp
  show ?thesis
    using a' b c d e
      manifest_of_directory [of "''output''" "''file_list.txt''" sample_downloaded PyNone
        "snd (create_file_list ''output'' ''file_list.txt'' sample_downloaded)" "[]"]
    by auto
qed

text \<open>
  C7, as stated, fails: the builder has no \<open>return\<close> statement, and the value it
  returns is \<open>None\<close>, not the number of files it has listed (two, in the sample run).
\<close>

theorem builder_returns_none:
  "fst (create_file_list ''output'' ''file_list.txt'' sample_downloaded) = Inr PyNone
   \<and> os_listdir ''output'' sample_downloaded = Inr [''seg002.ts'', ''clip'', ''seg000.ts'']
   \<and> length (ts_files_of [''seg002.ts'', ''clip'', ''seg000.ts'']) = 2
   \<and> PyNone \<noteq> PyInt 2"
proof -
  have "length (ts_files_of [''seg002.ts'', ''clip'', ''seg000.ts'']) = 2"
    by code_simp
  with sample_builder_value sample_listing show ?thesis
    by simp
qed

text \<open>
  C7, amended. When the builder returns, it returns \<open>None\<close>, and the last thing it
  has printed is the message \<open>Created ... with N files listed.\<close>, where N is the number
  of entries of the folder with the extension \<open>.ts\<close>, which is the number of lines of
  the manifest it has written.
\<close>

theorem manifest_count_reported:
  "create_file_list output_folder list_file_name w = (Inr v, w') \<longrightarrow>
     v = PyNone
     \<and> (\<exists>listing lines.
          os_listdir output_folder w = Inr listing
          \<and> read_file list_file_name w' = Some (concat lines)
          \<and> lines = map (manifest_line output_folder) (ts_files_of listing)
          \<and> length lines = length (filter (\<lambda>f. endswith f ''.ts'') listing)
          \<and> stdout w' = stdout w @
               [Created_list list_file_name
                  (length (filter (\<lambda>f. endswith f ''.ts'') listing))])"
proof
  assume "create_file_list output_folder list_file_name w = (Inr v, w')"
  then obtain listing where "os_listdir output_folder w = Inr listing"
    and "v = PyNone"
    and "read_file list_file_name w'
         = Some (concat (map (manifest_line output_folder) (ts_files_of listing)))"
    and "stdout w' = stdout w @ [Created_list list_file_name (length (ts_files_of listing))]"
    by (rule create_file_list_manifest)
  moreover have "length (ts_files_of listing) = length (filter (\<lambda>f. endswith f ''.ts'') listing)"
    by (simp add: ts_files_of_def)
  ultimately show "v = PyNone
     \<and> (\<exists>listing lines.
          os_listdir output_folder w = Inr listing
          \<and> read_file list_file_name w' = Some (concat lines)
          \<and> lines = map (manifest_line output_folder) (ts_files_of listing)
          \<and> length lines = length (filter (\<lambda>f. endswith f ''.ts'') listing)
          \<and> stdout w' = stdout w @
               [Created_list list_file_name
                  (length (filter (\<lambda>f. endswith f ''.ts'') listing))])"
    by simp
qed

theorem manifest_count_reported_witness:
  "create_file_list ''output'' ''file_list.txt'' sample_downloaded
     = (Inr PyNone, snd (create_file_list ''output'' ''file_list.txt'' sample_downloaded))
   \<and> os_listdir ''output'' sample_downloaded = Inr [''seg002.ts'', ''clip'', ''seg000.ts'']
   \<and> length (filter (\<lambda>f. endswith f ''.ts'') [''seg002.ts'', ''clip'', ''seg000.ts'']) = 2
   \<and> stdout (snd (create_file_list ''output'' ''file_list.txt'' sample_downloaded))
       = stdout sample_downloaded @ [Created_list ''file_list.txt'' 2]"
proof -
  note a' = sample_builder_returns and b = sample_listing
  have c: "length (filter (\<lambda>f. endswith f ''.ts'') [''seg002.ts'', ''clip'', ''seg000.ts'']) = 2"
    by code_simp
  show ?thesis
    using a' b c
      manifest_count_reported [of "''output''" "''file_list.txt''" sample_downloaded PyNone
        "snd (create_file_list ''output'' ''file_list.txt'' sample_downloaded)"]
    by auto
qed


subsection \<open>Segments without the extension\<close>

lemma endswith_append:
  assumes "endswith b s"
  shows "endswith (x @ b) s"
proof -
  from assms have len: "length s \<le> length b" and suffix: "drop (length b - length s) b = s"
    by (simp_all add: endswith_def)
  from len have "length (x @ b) - length s = length x + (length b - length s)"
    by simp
  with len suffix show ?thesis
    by (simp add: endswith_def)
qed

lemma endswith_os_path_join:
  assumes "endswith b s"
  shows "endswith (os_path_join a b) s"
  using assms endswith_append [OF assms, of a] endswith_append [OF assms, of "a @ ''/''"]
  by (simp add: os_path_join_def)

lemma endswith_slash: "endswith a ''/'' \<longleftrightarrow> a \<noteq> [] \<and> last a = CHR ''/''"
proof (cases a rule: rev_cases)
  case Nil
  then show ?thesis by (simp add: endswith_def)
next
  case (snoc xs x)
  then show ?thesis by (auto simp: endswith_def)
qed

lemma str_rfind_suffix:
  assumes "c \<notin> set name"
  shows "str_rfind (pre @ c # name) c = int (length pre)"
proof -
  have "takeWhile (\<lambda>x. x \<noteq> c) (ys @ c # zs) = ys" if "c \<notin> set ys" for ys zs
    using that by (induction ys) auto
  from this [of "rev name" "rev pre"] assms
  have "takeWhile (\<lambda>x. x \<noteq> c) (rev name @ c # rev pre) = rev name"
    by simp
  then show ?thesis
    by (simp add: str_rfind_def)
qed

lemma os_path_basename_no_slash: "CHR ''/'' \<notin> set (os_path_basename p)"
proof (cases "CHR ''/'' \<in> set p")
  case False
  then show ?thesis
    by (simp add: os_path_basename_def str_rfind_def)
next
  case True
  then obtain pre name where p: "p = pre @ CHR ''/'' # name" and name: "CHR ''/'' \<notin> set name"
    by (meson split_list_last)
  have "nat (int (length pre) + 1) = Suc (length pre)"
    by simp
  with p name str_rfind_suffix [OF name, of pre] show ?thesis
    by (simp add: os_path_basename_def)
qed

lemma rstrip_slashes_snoc:
  assumes "a \<noteq> []" and "last a \<noteq> CHR ''/''"
  shows "rstrip_slashes (a @ ''/'') = a" and "rstrip_slashes a = a"
proof -
  from assms obtain xs x where a: "a = xs @ [x]" and x: "x \<noteq> CHR ''/''"
    by (cases a rule: rev_cases) auto
  show "rstrip_slashes (a @ ''/'') = a" and "rstrip_slashes a = a"
    using x by (auto simp: rstrip_slashes_def a)
qed

lemma os_path_split_join:
  assumes folder: "folder \<noteq> []" and name: "CHR ''/'' \<notin> set name"
  shows "os_path_split (os_path_join folder name) = (rstrip_slashes folder, name)"
proof (cases "last folder = CHR ''/''")
  case True
  with folder obtain pre where pre: "folder = pre @ ''/''"
    by (cases folder rule: rev_cases) auto
  from name have "\<not> startswith name ''/''"
    by (cases name) (auto simp: startswith_def)
  with True folder have "os_path_join folder name = pre @ CHR ''/'' # name"
    by (simp add: os_path_join_def endswith_slash pre)
  moreover have "nat (int (length pre) + 1) = Suc (length pre)"
    by simp
  ultimately show ?thesis
    using str_rfind_suffix [OF name, of pre] by (simp add: os_path_split_def pre Let_def)
next
  case False
  from name have "\<not> startswith name ''/''"
    by (cases name) (auto simp: startswith_def)
  with False folder have "os_path_join folder name = folder @ CHR ''/'' # name"
    by (simp add: os_path_join_def endswith_slash)
  moreover have "nat (int (length folder) + 1) = Suc (length folder)"
    by simp
  ultimately show ?thesis
    using str_rfind_suffix [OF name, of folder] rstrip_slashes_snoc [OF folder False]
    by (simp add: os_path_split_def Let_def)
qed

lemma put_entry_listed: "name \<in> set (map fst (put_entry name e entries))"
proof (induction entries)
  case Nil
  show ?case by simp
next
  case (Cons x entries)
  obtain n y where x: "x = (n, y)"
    by (cases x)
  from Cons show ?case
    by (cases "n = name") (simp_all add: x)
qed

lemma ts_files_of_set:
  "set (ts_files_of listing) = {f \<in> set listing. endswith f ''.ts''}"
  by (auto simp: ts_files_of_def)

lemma ts_files_of_without:
  assumes "\<not> endswith name ''.ts''"
  shows "ts_files_of (removeAll name listing) = ts_files_of listing"
proof -
  have "filter (\<lambda>f. endswith f ''.ts'') (removeAll name listing)
        = filter (\<lambda>f. endswith f ''.ts'') listing"
    using assms by (induction listing) auto
  then show ?thesis
    by (simp add: ts_files_of_def)
qed

lemma download_ts_segment_try_stored:
  assumes run: "download_ts_segment_try env ts_url output_folder w = (None, w')"
    and parsed: "urlparse env ts_url [] = Inr (scheme, netloc, path, params, query, fragment)"
    and folder: "output_folder \<noteq> []"
  shows "\<exists>ts_content entries.
           session_get env ts_url = Inr ts_content
           \<and> dirs w (rstrip_slashes output_folder) = Some entries
           \<and> w' = w\<lparr>dirs := (dirs w)(rstrip_slashes output_folder \<mapsto>
                      put_entry (os_path_basename path) (RegularFile ts_content) entries)\<rparr>"
proof -
  define output_path where "output_path = os_path_join output_folder (os_path_basename path)"
  have split: "os_path_split output_path = (rstrip_slashes output_folder, os_path_basename path)"
    unfolding output_path_def using folder os_path_basename_no_slash by (rule os_path_split_join)
  from run parsed obtain ts_content where got: "session_get env ts_url = Inr ts_content"
    by (cases "session_get env ts_url") (simp_all add: download_ts_segment_try_def)
  obtain r1 w1 where opened: "open_write output_path w = (r1, w1)"
    by (cases "open_write output_path w")
  from run parsed got opened have r1: "r1 = None"
    by (cases r1) (simp_all add: download_ts_segment_try_def output_path_def)
  with run parsed got opened have written: "file_write output_path ts_content w1 = (None, w')"
    by (simp add: download_ts_segment_try_def output_path_def)
  from opened r1 obtain entries where entries: "dirs w (rstrip_slashes output_folder) = Some entries"
    and w1: "w1 = w\<lparr>dirs := (dirs w)(rstrip_slashes output_folder \<mapsto>
               put_entry (os_path_basename path) (RegularFile []) entries)\<rparr>"
    by (auto simp: open_write_None_iff split)
  from written have "w' = w\<lparr>dirs := (dirs w)(rstrip_slashes output_folder \<mapsto>
                      put_entry (os_path_basename path) (RegularFile ts_content) entries)\<rparr>"
    by (auto simp: file_write_None_iff split w1 map_of_put_entry put_entry_twice)
  with got entries show ?thesis
    by blast
qed

text \<open>
  C9. Every line of a manifest that the builder has written names an entry of the folder
  whose name ends in \<open>.ts\<close>, and so does the path on the line. A segment whose URL has
  a last path segment without that extension is stored in the folder when its download
  succeeds, under that name; it is then listed by the directory, but it is not among the
  files of the manifest, and the count that the builder prints is the count without it.
\<close>

theorem manifest_lists_only_ts:
  "(create_file_list output_folder list_file_name w = (Inr v, w') \<longrightarrow>
      (\<exists>listing.
         os_listdir output_folder w = Inr listing
         \<and> read_file list_file_name w'
             = Some (concat (map (manifest_line output_folder) (ts_files_of listing)))
         \<and> (\<forall>ts_file \<in> set (ts_files_of listing).
               ts_file \<in> set listing \<and> endswith ts_file ''.ts''
               \<and> endswith (os_path_join output_folder ts_file) ''.ts'')))
   \<and> (download_ts_segment_try env ts_url output_folder w0 = (None, w1)
      \<and> urlparse env ts_url [] = Inr (scheme, netloc, path, params, query, fragment)
      \<and> output_folder \<noteq> [] \<and> \<not> endswith (os_path_basename path) ''.ts''
      \<and> create_file_list output_folder list_file_name w1 = (Inr u, w2) \<longrightarrow>
      (\<exists>ts_content listing.
         session_get env ts_url = Inr ts_content
         \<and> read_file (os_path_join output_folder (os_path_basename path)) w1 = Some ts_content
         \<and> os_listdir output_folder w1 = Inr listing
         \<and> os_path_basename path \<in> set listing
         \<and> os_path_basename path \<notin> set (ts_files_of listing)
         \<and> read_file list_file_name w2
             = Some (concat (map (manifest_line output_folder)
                               (ts_files_of (removeAll (os_path_basename path) listing))))
         \<and> stdout w2 = stdout w1 @
              [Created_list list_file_name
                 (length (ts_files_of (removeAll (os_path_basename path) listing)))]))"
proof (intro conjI impI)
  assume "create_file_list output_folder list_file_name w = (Inr v, w')"
  then obtain listing where "os_listdir output_folder w = Inr listing"
    and "read_file list_file_name w'
         = Some (concat (map (manifest_line output_folder) (ts_files_of listing)))"
    by (rule create_file_list_manifest)
  moreover have "\<forall>ts_file \<in> set (ts_files_of listing).
               ts_file \<in> set listing \<and> endswith ts_file ''.ts''
               \<and> endswith (os_path_join output_folder ts_file) ''.ts''"
    by (simp add: ts_files_of_set endswith_os_path_join)
  ultimately show "\<exists>listing.
         os_listdir output_folder w = Inr listing
         \<and> read_file list_file_name w'
             = Some (concat (map (manifest_line output_folder) (ts_files_of listing)))
         \<and> (\<forall>ts_file \<in> set (ts_files_of listing).
               ts_file \<in> set listing \<and> endswith ts_file ''.ts''
               \<and> endswith (os_path_join output_folder ts_file) ''.ts'')"
    by blast
next
  assume all: "download_ts_segment_try env ts_url output_folder w0 = (None, w1)
      \<and> urlparse env ts_url [] = Inr (scheme, netloc, path, params, query, fragment)
      \<and> output_folder \<noteq> [] \<and> \<not> endswith (os_path_basename path) ''.ts''
      \<and> create_file_list output_folder list_file_name w1 = (Inr u, w2)"
  define name where "name = os_path_basename path"
  from all have run: "download_ts_segment_try env ts_url output_folder w0 = (None, w1)"
    and parsed: "urlparse env ts_url [] = Inr (scheme, netloc, path, params, query, fragment)"
    and folder: "output_folder \<noteq> []"
    and other: "\<not> endswith name ''.ts''"
    and built: "create_file_list output_folder list_file_name w1 = (Inr u, w2)"
    by (simp_all add: name_def)
  from download_ts_segment_try_stored [OF run parsed folder]
  obtain ts_content entries where got: "session_get env ts_url = Inr ts_content"
    and w1: "w1 = w0\<lparr>dirs := (dirs w0)(rstrip_slashes output_folder \<mapsto>
                      put_entry name (RegularFile ts_content) entries)\<rparr>"
    unfolding name_def by blast
  define listing where "listing = map fst (put_entry name (RegularFile ts_content) entries)"
  have split: "os_path_split (os_path_join output_folder name)
               = (rstrip_slashes output_folder, name)"
    unfolding name_def using folder os_path_basename_no_slash by (rule os_path_split_join)
  have stored: "read_file (os_path_join output_folder name) w1 = Some ts_content"
    by (simp add: read_file_def split w1 map_of_put_entry)
  from folder have listed: "os_listdir output_folder w1 = Inr listing"
    by (simp add: os_listdir_def w1 listing_def)
  have member: "name \<in> set listing"
    unfolding listing_def by (rule put_entry_listed)
  from other have absent: "name \<notin> set (ts_files_of listing)"
    by (simp add: ts_files_of_set)
  from built obtain listing' where "os_listdir output_folder w1 = Inr listing'"
    and "read_file list_file_name w2
         = Some (concat (map (manifest_line output_folder) (ts_files_of listing')))"
    and "stdout w2 = stdout w1 @ [Created_list list_file_name (length (ts_files_of listing'))]"
    by (rule create_file_list_manifest)
  with listed ts_files_of_without [OF other, of listing]
  have "read_file list_file_name w2
          = Some (concat (map (manifest_line output_folder)
                            (ts_files_of (removeAll name listing))))"
    and "stdout w2 = stdout w1 @
           [Created_list list_file_name (length (ts_files_of (removeAll name listing)))]"
    by simp_all
  with got stored listed member absent
  show "\<exists>ts_content listing.
         session_get env ts_url = Inr ts_content
         \<and> read_file (os_path_join output_folder (os_path_basename path)) w1 = Some ts_content
         \<and> os_listdir output_folder w1 = Inr listing
         \<and> os_path_basename path \<in> set listing
         \<and> os_path_basename path \<notin> set (ts_files_of listing)
         \<and> read_file list_file_name w2
             = Some (concat (map (manifest_line output_folder)
                               (ts_files_of (removeAll (os_path_basename path) listing))))
         \<and> stdout w2 = stdout w1 @
              [Created_list list_file_name
                 (length (ts_files_of (removeAll (os_path_basename path) listing)))]"
    unfolding name_def by blast
qed

lemma sample_clip_stored_returns:
  "download_ts_segment_try sample_env ''https://host/path/clip'' ''output'' sample_folder_made
     = (None, sample_clip_stored)"
proof -
  have "fst (download_ts_segment_try sample_env ''https://host/path/clip'' ''output''
               sample_folder_made) = None"
    by code_simp
  then show ?thesis
    by (simp add: sample_clip_stored_def prod_eq_iff)
qed

lemma sample_clip_listing: "os_listdir ''output'' sample_clip_stored = Inr [''clip'']"
  by code_simp

lemma sample_clip_builder_value:
  "fst (create_file_list ''output'' ''file_list.txt'' sample_clip_stored) = Inr PyNone"
  by code_simp

theorem manifest_lists_only_ts_witness:
  "create_file_list ''output'' ''file_list.txt'' sample_downloaded
     = (Inr PyNone, snd (create_file_list ''output'' ''file_list.txt'' sample_downloaded))
   \<and> os_listdir ''output'' sample_downloaded = Inr [''seg002.ts'', ''clip'', ''seg000.ts'']
   \<and> ts_files_of [''seg002.ts'', ''clip'', ''seg000.ts''] = [''seg000.ts'', ''seg002.ts'']
   \<and> read_file ''file_list.txt''
        (snd (create_file_list ''output'' ''file_list.txt'' sample_downloaded))
       = Some (concat (map (manifest_line ''output'') [''seg000.ts'', ''seg002.ts'']))
   \<and> download_ts_segment_try sample_env ''https://host/path/clip'' ''output''
        sample_folder_made = (None, sample_clip_stored)
   \<and> urlparse sample_env ''https://host/path/clip'' []
       = Inr (''https'', ''host'', ''/path/clip'', [], [], [])
   \<and> os_path_basename ''/path/clip'' = ''clip''
   \<and> \<not> endswith ''clip'' ''.ts''
   \<and> create_file_list ''output'' ''file_list.txt'' sample_clip_stored
       = (Inr PyNone, snd (create_file_list ''output'' ''file_list.txt'' sample_clip_stored))
   \<and> read_file ''output/clip'' sample_clip_stored = Some ''data of https://host/path/clip''
   \<and> os_listdir ''output'' sample_clip_stored = Inr [''clip'']
   \<and> read_file ''file_list.txt''
        (snd (create_file_list ''output'' ''file_list.txt'' sample_clip_stored)) = Some []
   \<and> stdout (snd (create_file_list ''output'' ''file_list.txt'' sample_clip_stored))
       = stdout sample_clip_stored @ [Created_list ''file_list.txt'' 0]"
proof -
  have a: "ts_files_of [''seg002.ts'', ''clip'', ''seg000.ts''] = [''seg000.ts'', ''seg002.ts'']"
    by code_simp
  have b: "urlparse sample_env ''https://host/path/clip'' []
           = Inr (''https'', ''host'', ''/path/clip'', [], [], [])"
    by code_simp
  have c: "os_path_basename ''/path/clip'' = ''clip''" "\<not> endswith ''clip'' ''.ts''"
    "os_path_join ''output'' ''clip'' = ''output/clip''"
    "ts_files_of (removeAll ''clip'' [''clip'']) = []"
    by code_simp+
  have d: "session_get sample_env ''https://host/path/clip''
           = Inr ''data of https://host/path/clip''"
    by (simp add: sample_env_def sample_url_def)
  have e: "create_file_list ''output'' ''file_list.txt'' sample_clip_stored
           = (Inr PyNone, snd (create_file_list ''output'' ''file_list.txt'' sample_clip_stored))"
    using sample_clip_builder_value by (simp add: prod_eq_iff)
  have f: "''output'' \<noteq> []"
    by simp
  from manifest_lists_only_ts [of "''output''" "''file_list.txt''" sample_downloaded PyNone
        "snd (create_file_list ''output'' ''file_list.txt'' sample_downloaded)"
        sample_env "''https://host/path/clip''" sample_folder_made sample_clip_stored
        "''https''" "''host''" "''/path/clip''" "[]" "[]" "[]" PyNone
        "snd (create_file_list ''output'' ''file_list.txt'' sample_clip_stored)"]
    sample_builder_returns sample_clip_stored_returns b c e f
  have first: "\<exists>listing.
         os_listdir ''output'' sample_downloaded = Inr listing
         \<and> read_file ''file_list.txt''
              (snd (create_file_list ''output'' ''file_list.txt'' sample_downloaded))
             = Some (concat (map (manifest_line ''output'') (ts_files_of listing)))"
    and second: "\<exists>ts_content listing.
         session_get sample_env ''https://host/path/clip'' = Inr ts_content
         \<and> read_file ''output/clip'' sample_clip_stored = Some ts_content
         \<and> os_listdir ''output'' sample_clip_stored = Inr listing
         \<and> read_file ''file_list.txt''
              (snd (create_file_list ''output'' ''file_list.txt'' sample_clip_stored))
             = Some (concat (map (manifest_line ''output'')
                               (ts_files_of (removeAll ''clip'' listing))))
         \<and> stdout (snd (create_file_list ''output'' ''file_list.txt'' sample_clip_stored))
             = stdout sample_clip_stored @
               [Created_list ''file_list.txt''
                  (length (ts_files_of (removeAll ''clip'' listing)))]"
    by auto
  from first sample_listing a
  have g: "read_file ''file_list.txt''
             (snd (create_file_list ''output'' ''file_list.txt'' sample_downloaded))
           = Some (concat (map (manifest_line ''output'') [''seg000.ts'', ''seg002.ts'']))"
    by auto
  from second sample_clip_listing c d
  have h: "read_file ''output/clip'' sample_clip_stored = Some ''data of https://host/path/clip''"
    "read_file ''file_list.txt''
        (snd (create_file_list ''output'' ''file_list.txt'' sample_clip_stored)) = Some []"
    "stdout (snd (create_file_list ''output'' ''file_list.txt'' sample_clip_stored))
       = stdout sample_clip_stored @ [Created_list ''file_list.txt'' 0]"
    by auto
  show ?thesis
    using sample_builder_returns sample_listing a sample_clip_stored_returns b c e
      sample_clip_listing g h
    by simp
qed


subsection \<open>A playlist that cannot be fetched\<close>

text \<open>
  C10. When the request for the playlist raises, \<open>download_m3u8\<close> raises the same
  exception and the script ends with exit status 1, leaving the world as it was: no
  directory has been created and no file written.
\<close>

theorem playlist_fetch_failure_aborts:
  "session_get env (arg_url a) = Inl e \<longrightarrow>
     download_m3u8 env (arg_url a) output_folder w = (Some e, w)
     \<and> main env a w = (1, w)"
  by (simp add: download_m3u8_def main_def)

theorem playlist_fetch_failure_aborts_witness:
  "session_get offline_env (arg_url sample_args) = Inl (RequestException ''unreachable'')
   \<and> download_m3u8 offline_env (arg_url sample_args) ''output'' sample_world
       = (Some (RequestException ''unreachable''), sample_world)
   \<and> main offline_env sample_args sample_world = (1, sample_world)
   \<and> dirs sample_world ''output'' = None"
proof -
  have a: "session_get offline_env (arg_url sample_args) = Inl (RequestException ''unreachable'')"
    by (simp add: offline_env_def)
  have b: "dirs sample_world ''output'' = None"
    by (simp add: sample_world_def)
  show ?thesis
    using a b
      playlist_fetch_failure_aborts [of offline_env sample_args "RequestException ''unreachable''"
        "''output''" sample_world]
    by simp
qed

subsection \<open>A transcoder that fails\<close>

lemma download_m3u8_folder_exists:
  assumes "download_m3u8 env m3u8_url output_folder w = (None, w')"
  shows "dirs w' (rstrip_slashes output_folder) \<noteq> None"
proof -
  from assms obtain m3u8_content where got: "session_get env m3u8_url = Inr m3u8_content"
    by (cases "session_get env m3u8_url") (simp_all add: download_m3u8_def)
  obtain r1 w1 where made: "os_makedirs output_folder w = (r1, w1)"
    by (cases "os_makedirs output_folder w")
  from assms got made have r1: "r1 = None"
    by (cases r1) (simp_all add: download_m3u8_def)
  from assms got made r1 obtain ts_urls
    where resolved: "ts_urls_of env m3u8_url (splitlines m3u8_content) = Inr ts_urls"
    by (cases "ts_urls_of env m3u8_url (splitlines m3u8_content)")
      (simp_all add: download_m3u8_def)
  obtain futures w2 where pool: "run_pool env output_folder ts_urls w1 = (futures, w2)"
    by (cases "run_pool env output_folder ts_urls w1")
  obtain r3 w3 where loop: "as_completed_loop futures (w2\<lparr>progress := 0\<rparr>) = (r3, w3)"
    by (cases "as_completed_loop futures (w2\<lparr>progress := 0\<rparr>)")
  from assms got made r1 resolved pool loop
  have w': "w' = print (Downloaded_all output_folder) w3"
    by (cases r3) (simp_all add: download_m3u8_def)
  have "keeps w1 w'"
    using run_pool_keeps [OF pool] keeps_progress [of w2 0] as_completed_loop_keeps [OF loop]
      keeps_print [of w3 "Downloaded_all output_folder"]
    unfolding w' by (blast intro: keeps_trans)
  with os_makedirs_exists [of output_folder w w1] made r1 show ?thesis
    by (simp add: keeps_def)
qed

lemma execute_ffmpeg_command_nonzero:
  assumes "run (ffmpeg_command input_file output_file compress) = Inr (returncode, diagnostics)"
    and "returncode \<noteq> 0"
  shows "execute_ffmpeg_command run input_file output_file compress w =
           (None, print (Ffmpeg_stderr None)
                    (print (Error_executing
                       (CalledProcessError returncode
                          (ffmpeg_command input_file output_file compress) None)) w))"
  using assms by (simp add: execute_ffmpeg_command_def subprocess_run_check_def)

lemma rstrip_slashes_output: "rstrip_slashes ''output'' = ''output''"
  by (simp add: rstrip_slashes_def)

lemma main_after_encoder_failure:
  assumes down: "download_m3u8 env (arg_url a) ''output'' w = (None, w1)"
    and listed: "create_file_list ''output'' ''file_list.txt'' w1 = (Inr v, w2)"
    and run: "subprocess_run env (ffmpeg_command ''file_list.txt'' (arg_output a) (arg_compress a))
              = Inr (returncode, diagnostics)"
    and nonzero: "returncode \<noteq> 0"
    and allowed: "\<not> denied w ''output''"
  shows "fst (main env a w) = 0" and "dirs (snd (main env a w)) ''output'' = None"
proof -
  define w3 where
    "w3 = print (Ffmpeg_stderr None)
            (print (Error_executing
               (CalledProcessError returncode
                  (ffmpeg_command ''file_list.txt'' (arg_output a) (arg_compress a)) None)) w2)"
  define w4 where "w4 = (if arg_compress a then print Video_compressed w3 else w3)"
  have encoded: "execute_ffmpeg_command (subprocess_run env) ''file_list.txt''
                   (arg_output a) (arg_compress a) w2 = (None, w3)"
    unfolding w3_def using run nonzero by (rule execute_ffmpeg_command_nonzero)
  have "keeps w w1"
    using down by (rule download_m3u8_keeps)
  moreover have "keeps w1 w2"
    using listed by (rule create_file_list_keeps)
  moreover have "keeps w2 w4"
    by (simp add: w4_def w3_def keeps_def print_def)
  ultimately have "keeps w1 w4" and "keeps w w4"
    by (blast intro: keeps_trans)+
  with download_m3u8_folder_exists [OF down] allowed
  have "dirs w4 ''output'' \<noteq> None" and "\<not> denied w4 ''output''"
    by (simp_all add: keeps_def rstrip_slashes_output)
  then have removed: "shutil_rmtree ''output'' w4 = (None, w4\<lparr>dirs := (dirs w4)(''output'' := None)\<rparr>)"
    by (auto simp: shutil_rmtree_def rstrip_slashes_output)
  from down listed encoded removed
  have "main env a w = (0, w4\<lparr>dirs := (dirs w4)(''output'' := None)\<rparr>)"
    by (simp add: main_def w4_def)
  then show "fst (main env a w) = 0" and "dirs (snd (main env a w)) ''output'' = None"
    by simp_all
qed

text \<open>
  C5, as stated, fails: when ffmpeg exits with status 1, \<open>execute_ffmpeg_command\<close>
  raises nothing, and the script ends with exit status 0.
\<close>

theorem encoder_failure_exit_status_zero:
  "subprocess_run sample_env
     (ffmpeg_command ''file_list.txt'' (arg_output sample_args) (arg_compress sample_args))
     = Inr (1, ''Invalid data found'')
   \<and> fst (execute_ffmpeg_command (subprocess_run sample_env) ''file_list.txt''
            (arg_output sample_args) (arg_compress sample_args) sample_world) = None
   \<and> fst (main sample_env sample_args sample_world) = 0"
  by code_simp

text \<open>
  C5, amended. When the transcoder exits with a non-zero status, the invoker catches
  the \<open>CalledProcessError\<close>, which carries the exit status and the command, prints it
  and returns normally. The failure does not end the run: the script goes on to remove
  the working directory and, when the system lets it, ends with exit status 0.
\<close>

theorem encoder_failure_reported:
  "(subprocess_run env (ffmpeg_command input_file output_file compress)
      = Inr (returncode, diagnostics) \<and> returncode \<noteq> 0 \<longrightarrow>
      fst (execute_ffmpeg_command (subprocess_run env) input_file output_file compress w) = None
      \<and> (\<exists>err. stdout (snd (execute_ffmpeg_command (subprocess_run env)
                               input_file output_file compress w))
             = stdout w @
               [Error_executing (CalledProcessError returncode
                  (ffmpeg_command input_file output_file compress) err),
                Ffmpeg_stderr err]))
   \<and> (download_m3u8 env (arg_url a) ''output'' w = (None, w1)
      \<and> create_file_list ''output'' ''file_list.txt'' w1 = (Inr v, w2)
      \<and> subprocess_run env (ffmpeg_command ''file_list.txt'' (arg_output a) (arg_compress a))
          = Inr (returncode, diagnostics)
      \<and> returncode \<noteq> 0 \<and> \<not> denied w ''output'' \<longrightarrow>
      fst (main env a w) = 0 \<and> dirs (snd (main env a w)) ''output'' = None)"
proof -
  have "fst (execute_ffmpeg_command (subprocess_run env) input_file output_file compress w) = None
      \<and> (\<exists>err. stdout (snd (execute_ffmpeg_command (subprocess_run env)
                               input_file output_file compress w))
             = stdout w @
               [Error_executing (CalledProcessError returncode
                  (ffmpeg_command input_file output_file compress) err),
                Ffmpeg_stderr err])"
    if "subprocess_run env (ffmpeg_command input_file output_file compress)
          = Inr (returncode, diagnostics)" and "returncode \<noteq> 0"
    using that execute_ffmpeg_command_nonzero [of "subprocess_run env" input_file output_file
        compress returncode diagnostics w]
    by (simp add: print_def)
  then show ?thesis
    using main_after_encoder_failure [of env a w w1 v w2 returncode diagnostics] by blast
qed

lemma sample_download_returns:
  "download_m3u8 sample_env sample_url ''output'' sample_world = (None, sample_downloaded)"
proof -
  have "fst (download_m3u8 sample_env sample_url ''output'' sample_world) = None"
    by code_simp
  then show ?thesis
    by (simp add: sample_downloaded_def prod_eq_iff)
qed

theorem encoder_failure_reported_witness:
  "subprocess_run sample_env (ffmpeg_command ''file_list.txt'' ''output.mp4'' False)
     = Inr (1, ''Invalid data found'')
   \<and> (1 :: int) \<noteq> 0
   \<and> fst (execute_ffmpeg_command (subprocess_run sample_env) ''file_list.txt'' ''output.mp4''
            False sample_world) = None
   \<and> download_m3u8 sample_env (arg_url sample_args) ''output'' sample_world
       = (None, sample_downloaded)
   \<and> create_file_list ''output'' ''file_list.txt'' sample_downloaded
       = (Inr PyNone, snd (create_file_list ''output'' ''file_list.txt'' sample_downloaded))
   \<and> \<not> denied sample_world ''output''
   \<and> fst (main sample_env sample_args sample_world) = 0
   \<and> dirs (snd (main sample_env sample_args sample_world)) ''output'' = None"
proof -
  have a: "subprocess_run sample_env (ffmpeg_command ''file_list.txt'' ''output.mp4'' False)
           = Inr (1, ''Invalid data found'')"
    by (simp add: sample_env_def)
  have b: "arg_url sample_args = sample_url" "arg_output sample_args = ''output.mp4''"
    "arg_compress sample_args = False"
    by (simp_all add: sample_args_def)
  have c: "\<not> denied sample_world ''output''"
    by (simp add: sample_world_def)
  show ?thesis
    using a b c sample_download_returns sample_builder_returns
      encoder_failure_reported [of sample_env "''file_list.txt''" "''output.mp4''" False 1
        "''Invalid data found''" sample_world sample_args sample_downloaded PyNone
        "snd (create_file_list ''output'' ''file_list.txt'' sample_downloaded)"]
    by simp
qed


subsection \<open>The encoder command\<close>

text \<open>
  C4. For every manifest path, output path and re-encode flag, the command line handed
  to the transcoder is: \<open>ffmpeg\<close> in concat-demuxer mode with \<open>-safe 0\<close> reading the
  manifest; then, with re-encoding, video codec libx264 at CRF 23 and preset medium and
  audio codec aac at 128k, and otherwise \<open>-c copy\<close> for all streams; then the output
  path as the last argument. It is this command that the invoker runs: what the invoker
  does depends on the process runner only through what it answers to this command.
\<close>

theorem ffmpeg_command_shape:
  "ffmpeg_command input_file output_file compress =
     [''ffmpeg'', ''-f'', ''concat'', ''-safe'', ''0'', ''-i'', input_file]
     @ (if compress
        then [''-c:v'', ''libx264'', ''-crf'', ''23'', ''-preset'', ''medium'',
              ''-c:a'', ''aac'', ''-b:a'', ''128k'']
        else [''-c'', ''copy''])
     @ [output_file]
   \<and> last (ffmpeg_command input_file output_file compress) = output_file
   \<and> execute_ffmpeg_command run input_file output_file compress w =
       execute_ffmpeg_command
         (\<lambda>command. run (ffmpeg_command input_file output_file compress))
         input_file output_file compress w"
  by (simp add: ffmpeg_command_def execute_ffmpeg_command_def subprocess_run_check_def Let_def)

end
